theory Spec2Isabelle
  imports Complex_Main "HOL-Library.Word"
begin

section \<open>Julia-set renderer: a shallow embedding of run-gen-fractal-julia.py\<close>

text \<open>
  Numbers. Python's unbounded \<open>int\<close> is \<open>int\<close>. Python's \<open>float\<close> and \<open>complex\<close> are
  modelled in exact arithmetic, as \<open>real\<close> and \<open>complex\<close>: rounding, infinities and NaN
  are outside the model. A channel of the numpy \<open>uint8\<close> buffer is an \<open>8 word\<close>.
  Every \<open>raise\<close> the interpreter or numpy can perform on the modelled paths is a value
  of \<open>py_error\<close>, returned as \<open>Inl\<close>.
\<close>

datatype py_error = ValueError | IndexError | UnboundLocalError | TypeError | ZeroDivisionError

text \<open>Python's \<open>a % b\<close> on floats: the result has the sign of the divisor.\<close>

definition py_fmod :: "real \<Rightarrow> real \<Rightarrow> real" where
  "py_fmod a b = a - b * of_int \<lfloor>a / b\<rfloor>"

text \<open>Python's \<open>int(r)\<close> on a float truncates towards zero.\<close>

definition py_int :: "real \<Rightarrow> int" where
  "py_int r = (if 0 \<le> r then \<lfloor>r\<rfloor> else \<lceil>r\<rceil>)"

subsection \<open>class FunctionList\<close>

definition func_z2pc :: "complex \<Rightarrow> complex \<Rightarrow> complex" where
  "func_z2pc z c = z * z + c"

definition func_z3pc :: "complex \<Rightarrow> complex \<Rightarrow> complex" where
  "func_z3pc z c = z * z * z + c"

subsection \<open>class FractalJulia: fields and constructor\<close>

record config =
  image_width :: int
  image_height :: int
  minx :: real
  miny :: real
  maxx :: real
  maxy :: real
  iterations :: int
  constant_c :: complex
  func :: "complex \<Rightarrow> complex \<Rightarrow> complex"
  zmax :: real
  scheme :: int

text \<open>
  \<open>__init__\<close> copies its arguments into the fields and checks nothing; the only failure
  is the subscript of a list that is too short.
\<close>

definition init ::
  "int list \<Rightarrow> real list \<Rightarrow> (complex \<Rightarrow> complex \<Rightarrow> complex) \<Rightarrow> complex \<Rightarrow> int \<Rightarrow> real \<Rightarrow> int
    \<Rightarrow> py_error + config" where
  "init image_size grid_range function c iterations' zmax' color_scheme =
     (if length image_size < 2 \<or> length grid_range < 4 then Inl IndexError
      else Inr \<lparr> image_width = image_size ! 0, image_height = image_size ! 1,
                 minx = grid_range ! 0, miny = grid_range ! 1,
                 maxx = grid_range ! 2, maxy = grid_range ! 3,
                 iterations = iterations', constant_c = c, func = function,
                 zmax = zmax', scheme = color_scheme \<rparr>)"

subsection \<open>Colour schemes\<close>

text \<open>A colour is the three-element list the schemes return, kept as a triple.\<close>

type_synonym rgb = "real \<times> real \<times> real"

definition generate_color_scheme1 :: "int \<Rightarrow> rgb" where
  "generate_color_scheme1 v =
     (let h = v mod 360;
          X = 1 - \<bar>py_fmod (of_int h / 60) 2 - 1\<bar>
      in if 0 \<le> h \<and> h < 60 then (1, X, 0)
         else if 60 \<le> h \<and> h < 120 then (X, 1, 0)
         else if 120 \<le> h \<and> h < 180 then (0, 1, X)
         else if 180 \<le> h \<and> h < 240 then (0, X, 1)
         else if 240 \<le> h \<and> h < 300 then (X, 0, 1)
         else if 300 \<le> h \<and> h < 360 then (1, 0, X)
         else (0, 0, 0))"

definition generate_color_scheme2 :: "config \<Rightarrow> int \<Rightarrow> py_error + rgb" where
  "generate_color_scheme2 cfg v =
     (if iterations cfg = 0 then Inl ZeroDivisionError
      else let i = of_int (v + 1) / of_int (iterations cfg) * 2;
               i' = (if i > 1 then 1 else i)
           in Inr (i', i', i'))"

text \<open>
  What \<open>__generate_color__\<close> hands back: a colour, or Python's \<open>None\<close> when the selector
  is neither 1 nor 2 (the last branch calls scheme 2 and drops its result).
\<close>

datatype pyval = NoneVal | Color rgb

definition generate_color :: "config \<Rightarrow> int \<Rightarrow> py_error + pyval" where
  "generate_color cfg v =
     (if scheme cfg = 1 then Inr (Color (generate_color_scheme1 v))
      else if scheme cfg = 2 then
        (case generate_color_scheme2 cfg v of Inl e \<Rightarrow> Inl e | Inr c \<Rightarrow> Inr (Color c))
      else
        (case generate_color_scheme2 cfg v of Inl e \<Rightarrow> Inl e | Inr c \<Rightarrow> Inr NoneVal))"

subsection \<open>The image buffer\<close>

type_synonym pixel = "8 word \<times> 8 word \<times> 8 word"
type_synonym image = "pixel list list"

text \<open>\<open>np.zeros((h, w, 3), dtype=np.uint8)\<close>: numpy rejects a negative dimension.\<close>

definition np_zeros :: "int \<Rightarrow> int \<Rightarrow> py_error + image" where
  "np_zeros h w =
     (if h < 0 \<or> w < 0 then Inl ValueError
      else Inr (replicate (nat h) (replicate (nat w) (0, 0, 0))))"

definition green :: "pixel \<Rightarrow> 8 word" where
  "green p = fst (snd p)"

definition in_bounds :: "image \<Rightarrow> nat \<Rightarrow> nat \<Rightarrow> bool" where
  "in_bounds img i j \<longleftrightarrow> i < length img \<and> j < length (img ! i)"

definition quantize :: "real \<Rightarrow> 8 word" where
  "quantize ch = word_of_int (py_int (ch * 255))"

text \<open>
  Lines 101 to 104: the guarded write at \<open>image[x, y, _]\<close>. The subscript of the guard is
  evaluated first (IndexError outside the buffer), then \<open>color\<close> is read: it is unbound
  (\<open>None\<close> here) when no pixel has escaped so far, and it is Python's \<open>None\<close> when the
  selector was unknown.
\<close>

definition write_pixel :: "nat \<Rightarrow> nat \<Rightarrow> pyval option \<Rightarrow> image \<Rightarrow> py_error + image" where
  "write_pixel x y color img =
     (if \<not> in_bounds img x y then Inl IndexError
      else if green (img ! x ! y) = 0 then
        (case color of
           None \<Rightarrow> Inl UnboundLocalError
         | Some NoneVal \<Rightarrow> Inl TypeError
         | Some (Color (r, g, b)) \<Rightarrow>
             Inr (img[x := (img ! x)[y := (quantize r, quantize g, quantize b)]]))
      else Inr img)"

subsection \<open>generate\<close>

text \<open>
  The grid sample of a pixel. The divisions run only inside \<open>range(0, image_width)\<close> and
  \<open>range(0, image_height)\<close>, where the divisor is at least 1. The progress bar has no
  effect on the result and is left out.
\<close>

definition grid_re :: "config \<Rightarrow> nat \<Rightarrow> real" where
  "grid_re cfg x = minx cfg + of_nat x * (maxx cfg - minx cfg) / of_int (image_width cfg)"

definition grid_im :: "config \<Rightarrow> nat \<Rightarrow> real" where
  "grid_im cfg y = miny cfg + of_nat y * (maxy cfg - miny cfg) / of_int (image_height cfg)"

definition rad :: "complex \<Rightarrow> complex \<Rightarrow> real" where
  "rad temp1 z = (Re temp1 - Re z) * (Re temp1 - Re z) + (Im temp1 - Im z) * (Im temp1 - Im z)"

text \<open>
  The loop \<open>for c in range(1, iterations + 1)\<close> over the remaining counts \<open>cs\<close>; the
  result is the binding of the variable \<open>color\<close> after the loop (unchanged when the
  loop runs to its end).
\<close>

fun iterate_loop ::
  "config \<Rightarrow> complex \<Rightarrow> int list \<Rightarrow> complex \<Rightarrow> pyval option \<Rightarrow> py_error + pyval option" where
  "iterate_loop cfg z [] temp1 color = Inr color"
| "iterate_loop cfg z (c # cs) temp1 color =
     (let temp1' = func cfg temp1 (constant_c cfg) in
      if rad temp1' z > zmax cfg then
        (case generate_color cfg c of Inl e \<Rightarrow> Inl e | Inr v \<Rightarrow> Inr (Some v))
      else iterate_loop cfg z cs temp1' color)"

type_synonym render_state = "image \<times> pyval option"

definition pixel_body :: "config \<Rightarrow> nat \<Rightarrow> real \<Rightarrow> nat \<Rightarrow> render_state \<Rightarrow> py_error + render_state" where
  "pixel_body cfg x z_r y s =
     (let z_i = grid_im cfg y;
          z = Complex z_r z_i
      in case iterate_loop cfg z [1..iterations cfg] z (snd s) of
           Inl e \<Rightarrow> Inl e
         | Inr color \<Rightarrow>
             (case write_pixel x y color (fst s) of
                Inl e \<Rightarrow> Inl e
              | Inr img \<Rightarrow> Inr (img, color)))"

fun loop_y :: "config \<Rightarrow> nat \<Rightarrow> real \<Rightarrow> nat list \<Rightarrow> render_state \<Rightarrow> py_error + render_state" where
  "loop_y cfg x z_r [] s = Inr s"
| "loop_y cfg x z_r (y # ys) s =
     (case pixel_body cfg x z_r y s of Inl e \<Rightarrow> Inl e | Inr s' \<Rightarrow> loop_y cfg x z_r ys s')"

fun loop_x :: "config \<Rightarrow> nat list \<Rightarrow> render_state \<Rightarrow> py_error + render_state" where
  "loop_x cfg [] s = Inr s"
| "loop_x cfg (x # xs) s =
     (let z_r = grid_re cfg x in
      case loop_y cfg x z_r [0..<nat (image_height cfg)] s of
        Inl e \<Rightarrow> Inl e
      | Inr s' \<Rightarrow> loop_x cfg xs s')"

definition generate :: "config \<Rightarrow> py_error + image" where
  "generate cfg =
     (case np_zeros (image_height cfg) (image_width cfg) of
        Inl e \<Rightarrow> Inl e
      | Inr buf \<Rightarrow>
          (case loop_x cfg [0..<nat (image_width cfg)] (buf, None) of
             Inl e \<Rightarrow> Inl e
           | Inr s \<Rightarrow> Inr (fst s)))"

subsection \<open>The command-line entry point\<close>

text \<open>
  The script body after \<open>parse_args\<close>: the two selector checks, the construction of
  the renderer, the render and the hand-over of the image to the file writer.
\<close>

record args =
  arg_size :: "int list"
  arg_grid :: "real list"
  arg_function :: int
  arg_constant :: "real list"
  arg_iterations :: int
  arg_threshold :: int
  arg_palette :: int
  arg_output :: string

datatype outcome = SysExit string | Raised py_error | Written string image

definition main :: "args \<Rightarrow> outcome" where
  "main a =
     (if arg_function a \<noteq> 1 \<and> arg_function a \<noteq> 2 then
        SysExit ''[ERROR]: Incorrect value for the function ID!''
      else if arg_palette a \<noteq> 1 \<and> arg_palette a \<noteq> 2 then
        SysExit ''[ERROR]: Incorrect value for the palette ID!''
      else if length (arg_constant a) < 2 then Raised IndexError
      else
        let f = (if arg_function a = 1 then func_z2pc else func_z3pc);
            c = Complex (arg_constant a ! 0) (arg_constant a ! 1)
        in case init (arg_size a) (arg_grid a) f c (arg_iterations a)
                  (of_int (arg_threshold a)) (arg_palette a) of
             Inl e \<Rightarrow> Raised e
           | Inr g \<Rightarrow>
               (case generate g of
                  Inl e \<Rightarrow> Raised e
                | Inr img \<Rightarrow> Written (arg_output a) img))"

section \<open>Specification-side notions\<close>

text \<open>
  The orbit of a sample under the configured function, and the escape count as the
  specification words it: the first count from 1 to N whose iterate lies at a squared
  distance from the starting point above the threshold.
\<close>

definition orbit :: "config \<Rightarrow> complex \<Rightarrow> nat \<Rightarrow> complex" where
  "orbit cfg z0 n = ((\<lambda>t. func cfg t (constant_c cfg)) ^^ n) z0"

definition escapes_at :: "config \<Rightarrow> complex \<Rightarrow> int \<Rightarrow> bool" where
  "escapes_at cfg z0 c \<longleftrightarrow> rad (orbit cfg z0 (nat c)) z0 > zmax cfg"

definition spec_escape_count :: "config \<Rightarrow> complex \<Rightarrow> int option" where
  "spec_escape_count cfg z0 = List.find (escapes_at cfg z0) [1..iterations cfg]"

text \<open>
  The sample of pixel \<open>(x, y)\<close>, the raster order of the two nested loops (\<open>x\<close> outer,
  \<open>y\<close> inner) as one list, and the pixel body run along a list of pixels.
\<close>

definition pixel_sample :: "config \<Rightarrow> nat \<Rightarrow> nat \<Rightarrow> complex" where
  "pixel_sample cfg x y = Complex (grid_re cfg x) (grid_im cfg y)"

definition scan :: "config \<Rightarrow> (nat \<times> nat) list" where
  "scan cfg = List.product [0..<nat (image_width cfg)] [0..<nat (image_height cfg)]"

fun run_pixels :: "config \<Rightarrow> (nat \<times> nat) list \<Rightarrow> render_state \<Rightarrow> py_error + render_state" where
  "run_pixels cfg [] s = Inr s"
| "run_pixels cfg (p # ps) s =
     (case pixel_body cfg (fst p) (grid_re cfg (fst p)) (snd p) s of
        Inl e \<Rightarrow> Inl e
      | Inr s' \<Rightarrow> run_pixels cfg ps s')"

definition pixel_escape :: "config \<Rightarrow> nat \<times> nat \<Rightarrow> int option" where
  "pixel_escape cfg p = spec_escape_count cfg (pixel_sample cfg (fst p) (snd p))"

text \<open>
  The escape count of the most recently escaped pixel of a list of pixels, \<open>k\<close> when
  none of them escapes.
\<close>

fun last_escape :: "config \<Rightarrow> int option \<Rightarrow> (nat \<times> nat) list \<Rightarrow> int option" where
  "last_escape cfg k [] = k"
| "last_escape cfg k (p # ps) =
     last_escape cfg (case pixel_escape cfg p of None \<Rightarrow> k | Some c \<Rightarrow> Some c) ps"

definition quantize_rgb :: "rgb \<Rightarrow> pixel" where
  "quantize_rgb c = (case c of (r, g, b) \<Rightarrow> (quantize r, quantize g, quantize b))"

subsection \<open>Sample configurations\<close>

text \<open>
  A 2 by 2 render of \<open>z\<^sup>2\<close> on the grid [1, -2, 3, 2] with the hue scheme: the pixels
  (0, 0) and (1, 0) escape at count 1, pixel (1, 1) at count 2, and pixel (0, 1) is the
  fixed point 1, which never escapes.
\<close>

definition cfg_demo :: config where
  "cfg_demo = \<lparr> image_width = 2, image_height = 2, minx = 1, miny = - 2, maxx = 3, maxy = 2,
     iterations = 2, constant_c = 0, func = func_z2pc, zmax = 4, scheme = 1 \<rparr>"

text \<open>A valid 1 by 1 configuration whose only pixel is the fixed point 0.\<close>

definition cfg_origin :: config where
  "cfg_origin = \<lparr> image_width = 1, image_height = 1, minx = 0, miny = 0, maxx = 1, maxy = 1,
     iterations = 1, constant_c = 0, func = func_z2pc, zmax = 1, scheme = 2 \<rparr>"

text \<open>A valid configuration that is wider than high.\<close>

definition cfg_wide :: config where
  "cfg_wide = \<lparr> image_width = 2, image_height = 1, minx = 2, miny = 0, maxx = 4, maxy = 1,
     iterations = 1, constant_c = 0, func = func_z2pc, zmax = 1, scheme = 2 \<rparr>"

text \<open>A configuration with a degenerate grid: \<open>minx = maxx\<close> and \<open>miny = maxy\<close>.\<close>

definition cfg_degenerate :: config where
  "cfg_degenerate = \<lparr> image_width = 1, image_height = 1, minx = 2, miny = 0, maxx = 2, maxy = 0,
     iterations = 1, constant_c = 0, func = func_z2pc, zmax = 1, scheme = 2 \<rparr>"

text \<open>The grayscale ramp with cap 8: counts 1, 2 and 3 give 1/2, 3/4 and 1.\<close>

definition cfg_ramp :: config where
  "cfg_ramp = cfg_demo \<lparr> iterations := 8, scheme := 2 \<rparr>"

text \<open>A configuration with a negative width.\<close>

definition cfg_negative :: config where
  "cfg_negative = cfg_demo \<lparr> image_width := - 1 \<rparr>"

text \<open>Command-line arguments with the palette selector 3.\<close>

definition args_palette3 :: args where
  "args_palette3 = \<lparr> arg_size = [500, 500], arg_grid = [- 3 / 2, - 3 / 2, 3 / 2, 3 / 2],
     arg_function = 2, arg_constant = [3 / 5, - 33 / 50], arg_iterations = 100,
     arg_threshold = 10, arg_palette = 3, arg_output = ''output.png'' \<rparr>"

text \<open>
  A valid configuration in the specification's sense: positive dimensions, a proper grid,
  a cap of at least 1, a positive threshold, a known scheme and one of the two functions.
\<close>

definition valid_config :: "config \<Rightarrow> bool" where
  "valid_config cfg \<longleftrightarrow>
     0 < image_width cfg \<and> 0 < image_height cfg
     \<and> minx cfg < maxx cfg \<and> miny cfg < maxy cfg
     \<and> 1 \<le> iterations cfg \<and> 0 < zmax cfg
     \<and> (scheme cfg = 1 \<or> scheme cfg = 2)
     \<and> (func cfg = func_z2pc \<or> func cfg = func_z3pc)"

text \<open>
  A valid 1 by 1 configuration whose pixel is the sample \<open>1 + i/2\<close>: under \<open>z\<^sup>2\<close>
  its iterates are \<open>3/4 + i\<close> and \<open>-7/16 + 3i/2\<close>, at squared displacements 5/16 and
  785/256 from the sample, so that with threshold 3 it escapes at count 2, and neither
  the real nor the imaginary part of the displacement alone exceeds the threshold there.
\<close>

definition cfg_escape :: config where
  "cfg_escape = \<lparr> image_width = 1, image_height = 1, minx = 1, miny = 1 / 2, maxx = 2,
     maxy = 3 / 2, iterations = 3, constant_c = 0, func = func_z2pc, zmax = 3, scheme = 1 \<rparr>"

text \<open>A configuration of width 0 and height 2.\<close>

definition cfg_flat :: config where
  "cfg_flat = cfg_demo \<lparr> image_width := 0 \<rparr>"

section \<open>The colour schemes\<close>

lemma scheme2_value:
  "iterations cfg \<noteq> 0 \<Longrightarrow>
   generate_color_scheme2 cfg c =
     Inr (let i = min 1 (of_int (c + 1) / of_int (iterations cfg) * 2) in (i, i, i))"
  by (simp add: generate_color_scheme2_def Let_def min_def)

text \<open>
  Claim C7. For a fixed cap \<open>N \<ge> 1\<close>, scheme 2 maps a count \<open>c\<close> to \<open>(i, i, i)\<close> with
  \<open>i = min 1 ((c + 1) / N * 2)\<close>; the map is non-decreasing in \<open>c\<close>, and it is exactly
  \<open>(1, 1, 1)\<close> for every \<open>c\<close> with \<open>c + 1 \<ge> N / 2\<close>.
\<close>

theorem scheme2_ramp:
  assumes "1 \<le> iterations cfg"
  shows "generate_color_scheme2 cfg c =
           Inr (let i = min 1 (of_int (c + 1) / of_int (iterations cfg) * 2) in (i, i, i))
         \<and> (\<forall>c'. c \<le> c' \<longrightarrow>
               (\<exists>i i'. generate_color_scheme2 cfg c = Inr (i, i, i)
                  \<and> generate_color_scheme2 cfg c' = Inr (i', i', i') \<and> i \<le> i'))
         \<and> (of_int (iterations cfg) / 2 \<le> (of_int (c + 1) :: real) \<longrightarrow>
               generate_color_scheme2 cfg c = Inr (1, 1, 1))"
proof -
  let ?N = "of_int (iterations cfg) :: real"
  have N: "0 < ?N" using assms by simp
  have ne: "iterations cfg \<noteq> 0" using assms by simp
  have mono: "of_int (c + 1) / ?N * 2 \<le> of_int (c' + 1) / ?N * 2" if "c \<le> c'" for c'
    by (intro mult_right_mono divide_right_mono) (use that N in simp_all)
  have sat: "1 \<le> of_int (c + 1) / ?N * 2" if "?N / 2 \<le> (of_int (c + 1) :: real)"
  proof -
    have "?N \<le> of_int (c + 1) * 2" using that by simp
    then have "1 \<le> (of_int (c + 1) * 2) / ?N" using N by (simp add: le_divide_eq)
    then show ?thesis by simp
  qed
  show ?thesis
  proof (intro conjI allI impI)
    show "generate_color_scheme2 cfg c =
           Inr (let i = min 1 (of_int (c + 1) / ?N * 2) in (i, i, i))"
      by (rule scheme2_value [OF ne])
  next
    fix c' assume "c \<le> c'"
    then have "min 1 (of_int (c + 1) / ?N * 2) \<le> min 1 (of_int (c' + 1) / ?N * 2)"
      using mono [of c'] by (simp add: min_def)
    then show "\<exists>i i'. generate_color_scheme2 cfg c = Inr (i, i, i)
                  \<and> generate_color_scheme2 cfg c' = Inr (i', i', i') \<and> i \<le> i'"
      by (simp add: scheme2_value [OF ne] Let_def)
  next
    assume "?N / 2 \<le> (of_int (c + 1) :: real)"
    then have "min 1 (of_int (c + 1) / ?N * 2) = 1" using sat by (simp add: min_def)
    then show "generate_color_scheme2 cfg c = Inr (1, 1, 1)"
      by (simp add: scheme2_value [OF ne] Let_def)
  qed
qed

theorem scheme2_ramp_witness:
  "1 \<le> iterations cfg_ramp
   \<and> generate_color_scheme2 cfg_ramp 1 = Inr (1 / 2, 1 / 2, 1 / 2)
   \<and> (1::int) \<le> 2
   \<and> (\<exists>i i'. generate_color_scheme2 cfg_ramp 1 = Inr (i, i, i)
         \<and> generate_color_scheme2 cfg_ramp 2 = Inr (i', i', i') \<and> i \<le> i')
   \<and> of_int (iterations cfg_ramp) / 2 \<le> (of_int (3 + 1) :: real)
   \<and> generate_color_scheme2 cfg_ramp 3 = Inr (1, 1, 1)"
proof -
  have h: "1 \<le> iterations cfg_ramp" by (simp add: cfg_ramp_def)
  note at1 = scheme2_ramp [OF h, of 1]
  note at3 = scheme2_ramp [OF h, of 3]
  have v1: "generate_color_scheme2 cfg_ramp 1 = Inr (1 / 2, 1 / 2, 1 / 2)"
    using at1 by (simp add: cfg_ramp_def Let_def)
  have mono: "\<exists>i i'. generate_color_scheme2 cfg_ramp 1 = Inr (i, i, i)
         \<and> generate_color_scheme2 cfg_ramp 2 = Inr (i', i', i') \<and> i \<le> i'"
    using at1 [THEN conjunct2, THEN conjunct1, rule_format, of 2] by simp
  have half: "of_int (iterations cfg_ramp) / 2 \<le> (of_int (3 + 1) :: real)"
    by (simp add: cfg_ramp_def)
  have v3: "generate_color_scheme2 cfg_ramp 3 = Inr (1, 1, 1)"
    using at3 [THEN conjunct2, THEN conjunct2] half by simp
  show ?thesis
    using h v1 mono half v3 by simp
qed

subsection \<open>Channels stay within a byte\<close>

text \<open>
  Inside \<open>generate\<close> a colour is computed only for a count \<open>c \<ge> 1\<close> under a cap
  \<open>N \<ge> 1\<close>. Its channels then lie in \<open>[0, 1]\<close>, so the truncated product with 255
  lies in \<open>[0, 255]\<close> and is stored in the \<open>uint8\<close> buffer unchanged.
\<close>

lemma py_fmod_2_range: "0 \<le> py_fmod a 2 \<and> py_fmod a 2 < 2"
proof -
  define k :: real where "k = of_int \<lfloor>a / 2\<rfloor>"
  have "k \<le> a / 2" "a / 2 < k + 1"
    unfolding k_def by linarith+
  then have "0 \<le> a - 2 * k \<and> a - 2 * k < 2" by linarith
  then show ?thesis by (simp add: py_fmod_def k_def)
qed

lemma scheme1_unit:
  assumes "generate_color_scheme1 v = (r, g, b)"
  shows "0 \<le> r \<and> r \<le> 1 \<and> 0 \<le> g \<and> g \<le> 1 \<and> 0 \<le> b \<and> b \<le> 1"
proof -
  let ?X = "1 - \<bar>py_fmod (of_int (v mod 360) / 60) 2 - 1\<bar>"
  have X: "0 \<le> ?X \<and> ?X \<le> 1"
    using py_fmod_2_range [of "of_int (v mod 360) / 60"] by (simp add: abs_le_iff)
  show ?thesis
    using assms X by (auto simp: generate_color_scheme1_def Let_def split: if_splits)
qed

lemma scheme2_unit:
  assumes "1 \<le> iterations cfg" and "0 \<le> v"
    and "generate_color_scheme2 cfg v = Inr (r, g, b)"
  shows "0 \<le> r \<and> r \<le> 1 \<and> 0 \<le> g \<and> g \<le> 1 \<and> 0 \<le> b \<and> b \<le> 1"
proof -
  have "0 \<le> (of_int (v + 1) :: real) / of_int (iterations cfg) * 2"
    using assms(1,2) by simp
  then show ?thesis
    using assms by (auto simp: generate_color_scheme2_def Let_def split: if_splits)
qed

lemma generate_color_unit:
  assumes "1 \<le> iterations cfg" and "0 \<le> v"
    and "generate_color cfg v = Inr (Color (r, g, b))"
  shows "0 \<le> r \<and> r \<le> 1 \<and> 0 \<le> g \<and> g \<le> 1 \<and> 0 \<le> b \<and> b \<le> 1"
proof (cases "scheme cfg = 1")
  case True
  then have "generate_color_scheme1 v = (r, g, b)"
    using assms(3) by (simp add: generate_color_def)
  then show ?thesis by (rule scheme1_unit)
next
  case False
  then have "generate_color_scheme2 cfg v = Inr (r, g, b)"
    using assms(3) by (auto simp: generate_color_def split: if_splits sum.splits)
  then show ?thesis by (rule scheme2_unit [OF assms(1,2)])
qed

lemma quantize_unit:
  assumes "0 \<le> ch" and "ch \<le> 1"
  shows "uint (quantize ch) = py_int (ch * 255) \<and> 0 \<le> py_int (ch * 255) \<and> py_int (ch * 255) \<le> 255"
proof -
  have nn: "0 \<le> ch * 255" using assms(1) by simp
  have le: "ch * 255 \<le> 255" using assms(2) by simp
  have p: "py_int (ch * 255) = \<lfloor>ch * 255\<rfloor>" using nn by (simp add: py_int_def)
  have lo: "0 \<le> \<lfloor>ch * 255\<rfloor>" using nn by simp
  have hi: "\<lfloor>ch * 255\<rfloor> \<le> 255" using le by (simp add: floor_le_iff)
  have "uint (word_of_int \<lfloor>ch * 255\<rfloor> :: 8 word) = \<lfloor>ch * 255\<rfloor>"
    using lo hi by (simp add: uint_word_of_int_eq take_bit_int_eq_self)
  then show ?thesis using p lo hi by (simp add: quantize_def)
qed

text \<open>
  Claim C8. Scheme 1 has period 360 in the integer count: \<open>c\<close> and \<open>c + 360\<close> get the
  same colour, for every integer \<open>c\<close>. The six boundary hues give the primaries and
  secondaries of the standard conversion at full saturation and value: 0 gives
  \<open>(1, 0, 0)\<close>, 60 gives \<open>(1, 1, 0)\<close>, 120 gives \<open>(0, 1, 0)\<close>, 180 gives \<open>(0, 1, 1)\<close>,
  240 gives \<open>(0, 0, 1)\<close> and 300 gives \<open>(1, 0, 1)\<close>. Half way through each sector the
  interpolated channel is 1/2, and every channel of every colour lies in \<open>[0, 1]\<close>.
\<close>

theorem scheme1_periodic:
  "generate_color_scheme1 (c + 360) = generate_color_scheme1 c
   \<and> generate_color_scheme1 0 = (1, 0, 0)
   \<and> generate_color_scheme1 60 = (1, 1, 0)
   \<and> generate_color_scheme1 120 = (0, 1, 0)
   \<and> generate_color_scheme1 180 = (0, 1, 1)
   \<and> generate_color_scheme1 240 = (0, 0, 1)
   \<and> generate_color_scheme1 300 = (1, 0, 1)
   \<and> generate_color_scheme1 30 = (1, 1 / 2, 0)
   \<and> generate_color_scheme1 90 = (1 / 2, 1, 0)
   \<and> generate_color_scheme1 150 = (0, 1, 1 / 2)
   \<and> generate_color_scheme1 210 = (0, 1 / 2, 1)
   \<and> generate_color_scheme1 270 = (1 / 2, 0, 1)
   \<and> generate_color_scheme1 330 = (1, 0, 1 / 2)
   \<and> (case generate_color_scheme1 c of
         (r, g, b) \<Rightarrow> 0 \<le> r \<and> r \<le> 1 \<and> 0 \<le> g \<and> g \<le> 1 \<and> 0 \<le> b \<and> b \<le> 1)"
proof (intro conjI)
  show "generate_color_scheme1 (c + 360) = generate_color_scheme1 c"
    by (simp add: generate_color_scheme1_def)
  show "generate_color_scheme1 0 = (1, 0, 0)"
    by (simp add: generate_color_scheme1_def py_fmod_def)
  show "generate_color_scheme1 60 = (1, 1, 0)"
    by (simp add: generate_color_scheme1_def py_fmod_def)
  show "generate_color_scheme1 120 = (0, 1, 0)"
    by (simp add: generate_color_scheme1_def py_fmod_def)
  show "generate_color_scheme1 180 = (0, 1, 1)"
    by (simp add: generate_color_scheme1_def py_fmod_def)
  show "generate_color_scheme1 240 = (0, 0, 1)"
    by (simp add: generate_color_scheme1_def py_fmod_def)
  show "generate_color_scheme1 300 = (1, 0, 1)"
    by (simp add: generate_color_scheme1_def py_fmod_def)
  show "generate_color_scheme1 30 = (1, 1 / 2, 0)"
    by (simp add: generate_color_scheme1_def py_fmod_def)
  show "generate_color_scheme1 90 = (1 / 2, 1, 0)"
    by (simp add: generate_color_scheme1_def py_fmod_def)
  show "generate_color_scheme1 150 = (0, 1, 1 / 2)"
    by (simp add: generate_color_scheme1_def py_fmod_def)
  show "generate_color_scheme1 210 = (0, 1 / 2, 1)"
    by (simp add: generate_color_scheme1_def py_fmod_def)
  show "generate_color_scheme1 270 = (1 / 2, 0, 1)"
    by (simp add: generate_color_scheme1_def py_fmod_def)
  show "generate_color_scheme1 330 = (1, 0, 1 / 2)"
    by (simp add: generate_color_scheme1_def py_fmod_def)
  show "case generate_color_scheme1 c of
         (r, g, b) \<Rightarrow> 0 \<le> r \<and> r \<le> 1 \<and> 0 \<le> g \<and> g \<le> 1 \<and> 0 \<le> b \<and> b \<le> 1"
    using scheme1_unit [of c] by (cases "generate_color_scheme1 c") auto
qed

theorem scheme1_periodic_witness:
  "generate_color_scheme1 (7 + 360) = (1, 7 / 60, 0)
   \<and> generate_color_scheme1 7 = (1, 7 / 60, 0)
   \<and> generate_color_scheme1 (- 60 + 360) = generate_color_scheme1 (- 60)
   \<and> generate_color_scheme1 (- 60) = (1, 0, 1)"
proof -
  have a: "generate_color_scheme1 7 = (1, 7 / 60, 0)"
    by (simp add: generate_color_scheme1_def py_fmod_def)
  have b: "generate_color_scheme1 (- 60 + 360) = (1, 0, 1)"
    using scheme1_periodic [of 0] by simp
  show ?thesis
    using scheme1_periodic [of 7] scheme1_periodic [of "- 60"] a b by simp
qed

section \<open>The escape-time loop\<close>

lemma orbit_Suc: "orbit cfg z (Suc n) = func cfg (orbit cfg z n) (constant_c cfg)"
  by (simp add: orbit_def)

lemma orbit_0: "orbit cfg z 0 = z"
  by (simp add: orbit_def)

lemma iterate_loop_from:
  "0 \<le> k \<Longrightarrow>
   iterate_loop cfg z [k + 1..n] (orbit cfg z (nat k)) color =
     (case List.find (escapes_at cfg z) [k + 1..n] of
        None \<Rightarrow> Inr color
      | Some c \<Rightarrow> (case generate_color cfg c of Inl e \<Rightarrow> Inl e | Inr v \<Rightarrow> Inr (Some v)))"
proof (induction "nat (n - k)" arbitrary: k)
  case 0
  then have "[k + 1..n] = []" by simp
  then show ?case by simp
next
  case (Suc m)
  then have lt: "k + 1 \<le> n" by linarith
  have unfold: "[k + 1..n] = (k + 1) # [(k + 1) + 1..n]"
    using lt by (simp add: upto_rec1)
  have nat_step: "nat (k + 1) = Suc (nat k)"
    using Suc.prems by (simp add: nat_add_distrib)
  have IH: "iterate_loop cfg z [(k + 1) + 1..n] (orbit cfg z (nat (k + 1))) color =
     (case List.find (escapes_at cfg z) [(k + 1) + 1..n] of
        None \<Rightarrow> Inr color
      | Some c \<Rightarrow> (case generate_color cfg c of Inl e \<Rightarrow> Inl e | Inr v \<Rightarrow> Inr (Some v)))"
  proof (rule Suc.hyps(1))
    show "m = nat (n - (k + 1))" using Suc.hyps(2) by linarith
    show "0 \<le> k + 1" using Suc.prems by simp
  qed
  have esc: "escapes_at cfg z (k + 1) \<longleftrightarrow>
             rad (func cfg (orbit cfg z (nat k)) (constant_c cfg)) z > zmax cfg"
    by (simp add: escapes_at_def nat_step orbit_Suc)
  show ?case
  proof (cases "escapes_at cfg z (k + 1)")
    case True
    then show ?thesis
      using esc by (subst (1 2) unfold) (simp add: Let_def)
  next
    case False
    then show ?thesis
      using esc IH by (subst (1 2) unfold) (simp add: Let_def nat_step orbit_Suc)
  qed
qed

lemma iterate_loop_spec:
  "iterate_loop cfg z [1..iterations cfg] z color =
     (case spec_escape_count cfg z of
        None \<Rightarrow> Inr color
      | Some c \<Rightarrow> (case generate_color cfg c of Inl e \<Rightarrow> Inl e | Inr v \<Rightarrow> Inr (Some v)))"
  using iterate_loop_from [of 0 cfg z "iterations cfg" color]
  by (simp add: spec_escape_count_def orbit_0)

lemma find_upto_Some:
  "List.find P [a..b] = Some c \<longleftrightarrow>
     a \<le> c \<and> c \<le> b \<and> P c \<and> (\<forall>c'. a \<le> c' \<and> c' < c \<longrightarrow> \<not> P c')"
proof (induction "nat (b - a + 1)" arbitrary: a)
  case 0
  then have "[a..b] = []" by simp
  moreover have "b < a" using 0 by linarith
  ultimately show ?case by auto
next
  case (Suc m)
  then have le: "a \<le> b" by linarith
  have unfold: "[a..b] = a # [a + 1..b]" using le by (simp add: upto_rec1)
  have IH: "List.find P [a + 1..b] = Some c \<longleftrightarrow>
     a + 1 \<le> c \<and> c \<le> b \<and> P c \<and> (\<forall>c'. a + 1 \<le> c' \<and> c' < c \<longrightarrow> \<not> P c')"
    by (rule Suc.hyps(1)) (use Suc.hyps(2) in linarith)
  show ?case
  proof (cases "P a")
    case True
    have "a = c \<longleftrightarrow> a \<le> c \<and> c \<le> b \<and> P c \<and> (\<forall>c'. a \<le> c' \<and> c' < c \<longrightarrow> \<not> P c')"
    proof
      assume "a = c"
      then show "a \<le> c \<and> c \<le> b \<and> P c \<and> (\<forall>c'. a \<le> c' \<and> c' < c \<longrightarrow> \<not> P c')"
        using True le by auto
    next
      assume r: "a \<le> c \<and> c \<le> b \<and> P c \<and> (\<forall>c'. a \<le> c' \<and> c' < c \<longrightarrow> \<not> P c')"
      show "a = c"
      proof (rule ccontr)
        assume "a \<noteq> c"
        then have "a \<le> a \<and> a < c" using r by linarith
        then show False using r True by blast
      qed
    qed
    then show ?thesis using True by (simp add: unfold)
  next
    case False
    have "(a + 1 \<le> c \<and> c \<le> b \<and> P c \<and> (\<forall>c'. a + 1 \<le> c' \<and> c' < c \<longrightarrow> \<not> P c'))
          \<longleftrightarrow> (a \<le> c \<and> c \<le> b \<and> P c \<and> (\<forall>c'. a \<le> c' \<and> c' < c \<longrightarrow> \<not> P c'))"
      (is "?L \<longleftrightarrow> ?R")
    proof
      assume l: ?L
      have "\<not> P c'" if "a \<le> c' \<and> c' < c" for c'
      proof (cases "c' = a")
        case True then show ?thesis using False by simp
      next
        case False
        then have "a + 1 \<le> c' \<and> c' < c" using that by linarith
        then show ?thesis using l by blast
      qed
      then show ?R using l by auto
    next
      assume r: ?R
      have "a \<noteq> c" using r False by auto
      then have "a + 1 \<le> c" using r by linarith
      moreover have "\<not> P c'" if "a + 1 \<le> c' \<and> c' < c" for c'
      proof -
        have "a \<le> c' \<and> c' < c" using that by linarith
        then show ?thesis using r by blast
      qed
      ultimately show ?L using r by auto
    qed
    then show ?thesis using False IH by (simp add: unfold)
  qed
qed

lemma find_upto_None:
  "List.find P [a..b] = None \<longleftrightarrow> (\<forall>c. a \<le> c \<and> c \<le> b \<longrightarrow> \<not> P c)"
  by (auto simp: find_None_iff)

lemma spec_escape_count_Some:
  "spec_escape_count cfg z = Some c \<longleftrightarrow>
     1 \<le> c \<and> c \<le> iterations cfg \<and> escapes_at cfg z c
     \<and> (\<forall>c'. 1 \<le> c' \<and> c' < c \<longrightarrow> \<not> escapes_at cfg z c')"
  by (simp add: spec_escape_count_def find_upto_Some)

lemma spec_escape_count_None:
  "spec_escape_count cfg z = None \<longleftrightarrow>
     (\<forall>c. 1 \<le> c \<and> c \<le> iterations cfg \<longrightarrow> \<not> escapes_at cfg z c)"
  by (simp add: spec_escape_count_def find_upto_None)

lemma orbit_origin:
  "func cfg = func_z2pc \<Longrightarrow> constant_c cfg = 0 \<Longrightarrow> orbit cfg 0 n = 0"
  by (induction n) (simp_all add: orbit_0 orbit_Suc func_z2pc_def)

text \<open>
  Claim C9. With the quadratic function and the constant 0, the sample \<open>z0 = 0\<close> never
  escapes, for every cap and every positive threshold: every iterate is 0, the squared
  displacement never exceeds the threshold, and the loop leaves \<open>color\<close> untouched.
\<close>

theorem origin_never_escapes:
  assumes "func cfg = func_z2pc" and "constant_c cfg = 0" and "0 < zmax cfg"
  shows "(\<forall>n. orbit cfg 0 n = 0)
       \<and> (\<forall>c. \<not> rad (orbit cfg 0 (nat c)) 0 > zmax cfg)
       \<and> spec_escape_count cfg 0 = None
       \<and> iterate_loop cfg 0 [1..iterations cfg] 0 color = Inr color"
proof -
  have fixed: "orbit cfg 0 n = 0" for n
    using assms(1,2) by (rule orbit_origin)
  have stay: "\<not> rad (orbit cfg 0 (nat c)) 0 > zmax cfg" for c
    using assms(3) by (simp add: fixed rad_def)
  have none: "spec_escape_count cfg 0 = None"
    using stay by (simp add: spec_escape_count_None escapes_at_def)
  have "iterate_loop cfg 0 [1..iterations cfg] 0 color = Inr color"
    using none by (simp add: iterate_loop_spec)
  then show ?thesis using fixed stay none by blast
qed

theorem origin_never_escapes_witness:
  "func cfg_origin = func_z2pc \<and> constant_c cfg_origin = 0 \<and> 0 < zmax cfg_origin
   \<and> 1 \<le> iterations cfg_origin
   \<and> iterate_loop cfg_origin 0 [1..iterations cfg_origin] 0 None = Inr None"
proof -
  have h: "func cfg_origin = func_z2pc" "constant_c cfg_origin = 0" "0 < zmax cfg_origin"
    by (simp_all add: cfg_origin_def)
  show ?thesis
    using h origin_never_escapes [OF h, of None] by (simp add: cfg_origin_def)
qed

text \<open>
  Claim C5. For pixel indices \<open>x\<close> in \<open>[0, W)\<close> and \<open>y\<close> in \<open>[0, H)\<close> the sample is
  \<open>(minx + x (maxx - minx) / W, miny + y (maxy - miny) / H)\<close>, and on a grid with
  \<open>minx < maxx\<close> and \<open>miny < maxy\<close> it satisfies \<open>minx \<le> re < maxx\<close> and
  \<open>miny \<le> im < maxy\<close> (in exact arithmetic).
\<close>

theorem sample_within_grid:
  assumes "int x < image_width cfg" and "int y < image_height cfg"
    and "minx cfg < maxx cfg" and "miny cfg < maxy cfg"
  shows "pixel_sample cfg x y =
           Complex (minx cfg + of_nat x * (maxx cfg - minx cfg) / of_int (image_width cfg))
                   (miny cfg + of_nat y * (maxy cfg - miny cfg) / of_int (image_height cfg))
       \<and> minx cfg \<le> Re (pixel_sample cfg x y) \<and> Re (pixel_sample cfg x y) < maxx cfg
       \<and> miny cfg \<le> Im (pixel_sample cfg x y) \<and> Im (pixel_sample cfg x y) < maxy cfg"
proof -
  have frac: "0 \<le> of_nat k * d / of_int n \<and> of_nat k * d / of_int n < d"
    if "int k < n" "0 < d" for k :: nat and n :: int and d :: real
  proof -
    have n: "0 < (of_int n :: real)" using that(1) by simp
    have "(of_nat k :: real) < of_int n" using that(1) by (metis of_int_less_iff of_int_of_nat_eq)
    then have "of_nat k * d < of_int n * d" using that(2) by simp
    then have "of_nat k * d / of_int n < d" using n by (simp add: divide_less_eq mult.commute)
    moreover have "0 \<le> of_nat k * d / of_int n" using n that(2) by simp
    ultimately show ?thesis by simp
  qed
  have fx: "0 \<le> of_nat x * (maxx cfg - minx cfg) / of_int (image_width cfg)
      \<and> of_nat x * (maxx cfg - minx cfg) / of_int (image_width cfg) < maxx cfg - minx cfg"
    using frac [of x "image_width cfg" "maxx cfg - minx cfg"] assms by simp
  have fy: "0 \<le> of_nat y * (maxy cfg - miny cfg) / of_int (image_height cfg)
      \<and> of_nat y * (maxy cfg - miny cfg) / of_int (image_height cfg) < maxy cfg - miny cfg"
    using frac [of y "image_height cfg" "maxy cfg - miny cfg"] assms by simp
  show ?thesis
    using fx fy by (simp add: pixel_sample_def grid_re_def grid_im_def)
qed

theorem sample_within_grid_witness:
  "int 1 < image_width cfg_demo \<and> int 1 < image_height cfg_demo
   \<and> minx cfg_demo < maxx cfg_demo \<and> miny cfg_demo < maxy cfg_demo
   \<and> pixel_sample cfg_demo 1 1 = Complex 2 0
   \<and> minx cfg_demo \<le> Re (pixel_sample cfg_demo 1 1) \<and> Re (pixel_sample cfg_demo 1 1) < maxx cfg_demo
   \<and> miny cfg_demo \<le> Im (pixel_sample cfg_demo 1 1) \<and> Im (pixel_sample cfg_demo 1 1) < maxy cfg_demo"
proof -
  have h: "int 1 < image_width cfg_demo" "int 1 < image_height cfg_demo"
      "minx cfg_demo < maxx cfg_demo" "miny cfg_demo < maxy cfg_demo"
    by (simp_all add: cfg_demo_def)
  show ?thesis
    using h sample_within_grid [OF h] by (simp add: cfg_demo_def)
qed

section \<open>The render loops\<close>

text \<open>
  The two nested loops of \<open>generate\<close> run the pixel body along the raster order
  \<open>scan\<close>; the lemmas below follow a render pixel by pixel.
\<close>

lemma run_pixels_append:
  "run_pixels cfg (ps @ qs) s =
     (case run_pixels cfg ps s of Inl e \<Rightarrow> Inl e | Inr s' \<Rightarrow> run_pixels cfg qs s')"
  by (induction ps arbitrary: s) (auto split: sum.splits)

lemma loop_y_run:
  "loop_y cfg x (grid_re cfg x) ys s = run_pixels cfg (map (Pair x) ys) s"
  by (induction ys arbitrary: s) (auto split: sum.splits)

lemma loop_x_run:
  "loop_x cfg xs s = run_pixels cfg (List.product xs [0..<nat (image_height cfg)]) s"
proof (induction xs arbitrary: s)
  case Nil
  show ?case by simp
next
  case (Cons x xs)
  show ?case
    by (simp add: Let_def loop_y_run run_pixels_append Cons.IH split: sum.splits)
qed

lemma generate_run:
  "generate cfg =
     (case np_zeros (image_height cfg) (image_width cfg) of
        Inl e \<Rightarrow> Inl e
      | Inr buf \<Rightarrow>
          (case run_pixels cfg (scan cfg) (buf, None) of
             Inl e \<Rightarrow> Inl e
           | Inr s \<Rightarrow> Inr (fst s)))"
  by (simp add: generate_def scan_def loop_x_run split: sum.splits)

lemma distinct_scan: "distinct (scan cfg)"
  by (simp add: scan_def distinct_product)

lemma set_scan:
  "set (scan cfg) = {p. fst p < nat (image_width cfg) \<and> snd p < nat (image_height cfg)}"
  by (auto simp: scan_def)

lemma write_pixel_Inr:
  assumes "write_pixel x y color img = Inr img'"
  shows "in_bounds img x y"
    and "green (img ! x ! y) = 0 \<Longrightarrow>
           \<exists>c. color = Some (Color c) \<and> img' = img[x := (img ! x)[y := quantize_rgb c]]"
    and "green (img ! x ! y) \<noteq> 0 \<Longrightarrow> img' = img"
  using assms
  by (auto simp: write_pixel_def quantize_rgb_def split: if_splits option.splits pyval.splits prod.splits)

lemma write_pixel_other:
  assumes "write_pixel x y color img = Inr img'" and "(i, j) \<noteq> (x, y)"
  shows "img' ! i ! j = img ! i ! j"
proof (cases "green (img ! x ! y) = 0")
  case False
  then show ?thesis using write_pixel_Inr(3) [OF assms(1)] by simp
next
  case True
  then obtain c where img': "img' = img[x := (img ! x)[y := quantize_rgb c]]"
    using write_pixel_Inr(2) [OF assms(1)] by blast
  have x: "x < length img" using write_pixel_Inr(1) [OF assms(1)] by (simp add: in_bounds_def)
  show ?thesis
  proof (cases "i = x")
    case True
    then have "j \<noteq> y" using assms(2) by simp
    then show ?thesis using True x by (simp add: img')
  next
    case False
    then show ?thesis by (simp add: img')
  qed
qed

lemma write_pixel_bounds:
  assumes "write_pixel x y color img = Inr img'"
  shows "in_bounds img' i j \<longleftrightarrow> in_bounds img i j"
proof (cases "green (img ! x ! y) = 0")
  case False
  then show ?thesis using write_pixel_Inr(3) [OF assms(1)] by simp
next
  case True
  then obtain c where img': "img' = img[x := (img ! x)[y := quantize_rgb c]]"
    using write_pixel_Inr(2) [OF assms(1)] by blast
  show ?thesis
    by (cases "i = x") (auto simp: img' in_bounds_def)
qed

lemma pixel_body_Inr:
  assumes "pixel_body cfg x (grid_re cfg x) y s = Inr s'"
  shows "iterate_loop cfg (pixel_sample cfg x y) [1..iterations cfg] (pixel_sample cfg x y) (snd s)
           = Inr (snd s')"
    and "write_pixel x y (snd s') (fst s) = Inr (fst s')"
  using assms
  by (auto simp: pixel_body_def pixel_sample_def Let_def split: sum.splits)

lemma pixel_body_color:
  assumes "pixel_body cfg x (grid_re cfg x) y s = Inr s'"
  shows "case pixel_escape cfg (x, y) of
           None \<Rightarrow> snd s' = snd s
         | Some c \<Rightarrow> (\<exists>v. generate_color cfg c = Inr v \<and> snd s' = Some v)"
proof (cases "pixel_escape cfg (x, y)")
  case None
  then show ?thesis
    using pixel_body_Inr(1) [OF assms] by (simp add: iterate_loop_spec pixel_escape_def)
next
  case (Some c)
  then have "(case generate_color cfg c of Inl e \<Rightarrow> Inl e | Inr v \<Rightarrow> Inr (Some v)) = Inr (snd s')"
    using pixel_body_Inr(1) [OF assms] by (simp add: iterate_loop_spec pixel_escape_def)
  then obtain v where "generate_color cfg c = Inr v" "snd s' = Some v"
    by (auto split: sum.splits)
  then show ?thesis using Some by simp
qed

lemma run_pixels_other:
  "run_pixels cfg ps s = Inr s' \<Longrightarrow> (i, j) \<notin> set ps \<Longrightarrow> fst s' ! i ! j = fst s ! i ! j"
proof (induction ps arbitrary: s)
  case Nil
  then show ?case by simp
next
  case (Cons p ps)
  from Cons.prems(1) obtain s1 where
    step: "pixel_body cfg (fst p) (grid_re cfg (fst p)) (snd p) s = Inr s1"
    and rest: "run_pixels cfg ps s1 = Inr s'"
    by (auto split: sum.splits)
  have "(i, j) \<noteq> (fst p, snd p)" using Cons.prems(2) by auto
  then have "fst s1 ! i ! j = fst s ! i ! j"
    using write_pixel_other [OF pixel_body_Inr(2) [OF step]] by blast
  moreover have "fst s' ! i ! j = fst s1 ! i ! j"
    using Cons.IH [OF rest] Cons.prems(2) by simp
  ultimately show ?case by simp
qed

lemma run_pixels_bounds:
  "run_pixels cfg ps s = Inr s' \<Longrightarrow> in_bounds (fst s') i j \<longleftrightarrow> in_bounds (fst s) i j"
proof (induction ps arbitrary: s)
  case Nil
  then show ?case by simp
next
  case (Cons p ps)
  from Cons.prems(1) obtain s1 where
    step: "pixel_body cfg (fst p) (grid_re cfg (fst p)) (snd p) s = Inr s1"
    and rest: "run_pixels cfg ps s1 = Inr s'"
    by (auto split: sum.splits)
  show ?case
    using Cons.IH [OF rest] write_pixel_bounds [OF pixel_body_Inr(2) [OF step]] by simp
qed

lemma last_escape_append:
  "last_escape cfg k (ps @ qs) = last_escape cfg (last_escape cfg k ps) qs"
  by (induction ps arbitrary: k) simp_all

lemma run_pixels_color:
  "run_pixels cfg ps s = Inr s' \<Longrightarrow>
   (case k of None \<Rightarrow> snd s = col0
    | Some c \<Rightarrow> (\<exists>v. generate_color cfg c = Inr v \<and> snd s = Some v)) \<Longrightarrow>
   (case last_escape cfg k ps of
      None \<Rightarrow> snd s' = col0
    | Some c \<Rightarrow> (\<exists>v. generate_color cfg c = Inr v \<and> snd s' = Some v))"
proof (induction ps arbitrary: s k)
  case Nil
  then show ?case by (auto split: option.splits)
next
  case (Cons p ps)
  from Cons.prems(1) obtain s1 where
    step: "pixel_body cfg (fst p) (grid_re cfg (fst p)) (snd p) s = Inr s1"
    and rest: "run_pixels cfg ps s1 = Inr s'"
    by (auto split: sum.splits)
  let ?k1 = "case pixel_escape cfg p of None \<Rightarrow> k | Some c \<Rightarrow> Some c"
  have "case ?k1 of None \<Rightarrow> snd s1 = col0
        | Some c \<Rightarrow> (\<exists>v. generate_color cfg c = Inr v \<and> snd s1 = Some v)"
    using pixel_body_color [OF step] Cons.prems(2)
    by (auto split: option.splits)
  from Cons.IH [OF rest this] show ?case by simp
qed

lemma np_zeros_Inr:
  assumes "np_zeros h w = Inr buf"
  shows "0 \<le> h" and "0 \<le> w"
    and "buf = replicate (nat h) (replicate (nat w) (0, 0, 0))"
  using assms by (auto simp: np_zeros_def split: if_splits)

lemma np_zeros_bounds:
  assumes "np_zeros h w = Inr buf"
  shows "in_bounds buf i j \<longleftrightarrow> i < nat h \<and> j < nat w"
proof -
  have "buf = replicate (nat h) (replicate (nat w) (0, 0, 0))"
    by (rule np_zeros_Inr(3) [OF assms])
  then show ?thesis by (auto simp: in_bounds_def)
qed

lemma np_zeros_zero:
  assumes "np_zeros h w = Inr buf" and "in_bounds buf i j"
  shows "buf ! i ! j = (0, 0, 0)"
proof -
  have buf: "buf = replicate (nat h) (replicate (nat w) (0, 0, 0))"
    by (rule np_zeros_Inr(3) [OF assms(1)])
  have "i < nat h \<and> j < nat w" using assms by (simp add: np_zeros_bounds)
  then show ?thesis by (simp add: buf)
qed

lemma write_pixel_shape:
  assumes "write_pixel x y color img = Inr img'"
  shows "length img' = length img \<and> length (img' ! i) = length (img ! i)"
proof (cases "green (img ! x ! y) = 0")
  case False
  then show ?thesis using write_pixel_Inr(3) [OF assms(1)] by simp
next
  case True
  then obtain c where img': "img' = img[x := (img ! x)[y := quantize_rgb c]]"
    using write_pixel_Inr(2) [OF assms(1)] by blast
  have x: "x < length img" using write_pixel_Inr(1) [OF assms(1)] by (simp add: in_bounds_def)
  show ?thesis
    using x by (cases "i = x") (simp_all add: img')
qed

lemma run_pixels_shape:
  "run_pixels cfg ps s = Inr s' \<Longrightarrow>
   length (fst s') = length (fst s) \<and> length (fst s' ! i) = length (fst s ! i)"
proof (induction ps arbitrary: s)
  case Nil
  then show ?case by simp
next
  case (Cons p ps)
  from Cons.prems(1) obtain s1 where
    step: "pixel_body cfg (fst p) (grid_re cfg (fst p)) (snd p) s = Inr s1"
    and rest: "run_pixels cfg ps s1 = Inr s'"
    by (auto split: sum.splits)
  show ?case
    using Cons.IH [OF rest] write_pixel_shape [OF pixel_body_Inr(2) [OF step], of i] by simp
qed

lemma render_visit:
  assumes run: "run_pixels cfg (pre @ (x, y) # post) (buf, None) = Inr s'"
    and zero: "\<And>i j. in_bounds buf i j \<Longrightarrow> buf ! i ! j = (0, 0, 0)"
    and pre: "(x, y) \<notin> set pre" and post: "(x, y) \<notin> set post"
  shows "\<exists>s1 c rgb.
           run_pixels cfg pre (buf, None) = Inr s1
         \<and> in_bounds buf x y \<and> in_bounds (fst s1) x y \<and> green (fst s1 ! x ! y) = 0
         \<and> last_escape cfg None (pre @ [(x, y)]) = Some c
         \<and> generate_color cfg c = Inr (Color rgb)
         \<and> pixel_body cfg x (grid_re cfg x) y s1 =
             Inr ((fst s1)[x := (fst s1 ! x)[y := quantize_rgb rgb]], Some (Color rgb))
         \<and> fst s' ! x ! y = quantize_rgb rgb"
proof -
  from run obtain s1 s2 where
    r1: "run_pixels cfg pre (buf, None) = Inr s1"
    and step: "pixel_body cfg x (grid_re cfg x) y s1 = Inr s2"
    and r2: "run_pixels cfg post s2 = Inr s'"
    by (auto simp: run_pixels_append split: sum.splits)
  note w = pixel_body_Inr(2) [OF step]
  have b1: "in_bounds (fst s1) x y" by (rule write_pixel_Inr(1) [OF w])
  have b0: "in_bounds buf x y" using run_pixels_bounds [OF r1, of x y] b1 by simp
  have "fst s1 ! x ! y = buf ! x ! y" using run_pixels_other [OF r1 pre] by simp
  then have z1: "fst s1 ! x ! y = (0, 0, 0)" using zero [OF b0] by simp
  then have g: "green (fst s1 ! x ! y) = 0" by (simp add: green_def)
  from write_pixel_Inr(2) [OF w g] obtain rgb where
    col: "snd s2 = Some (Color rgb)"
    and img2: "fst s2 = (fst s1)[x := (fst s1 ! x)[y := quantize_rgb rgb]]"
    by blast
  have s2: "s2 = ((fst s1)[x := (fst s1 ! x)[y := quantize_rgb rgb]], Some (Color rgb))"
    using col img2 by (simp add: prod_eq_iff)
  have "run_pixels cfg (pre @ [(x, y)]) (buf, None) = Inr s2"
    using r1 step by (simp add: run_pixels_append)
  from run_pixels_color [OF this, of None None]
  have "case last_escape cfg None (pre @ [(x, y)]) of
          None \<Rightarrow> snd s2 = None
        | Some c \<Rightarrow> (\<exists>v. generate_color cfg c = Inr v \<and> snd s2 = Some v)"
    by simp
  then obtain c where c: "last_escape cfg None (pre @ [(x, y)]) = Some c"
    "generate_color cfg c = Inr (Color rgb)"
    using col by (auto split: option.splits)
  have "fst s' ! x ! y = fst s2 ! x ! y" by (rule run_pixels_other [OF r2 post])
  also have "\<dots> = quantize_rgb rgb"
    using b1 by (simp add: img2 in_bounds_def)
  finally have fin: "fst s' ! x ! y = quantize_rgb rgb" .
  show ?thesis
    using r1 b0 b1 g c step s2 fin by blast
qed

lemma generate_Inr:
  assumes "generate cfg = Inr img"
  obtains buf col where "np_zeros (image_height cfg) (image_width cfg) = Inr buf"
    and "run_pixels cfg (scan cfg) (buf, None) = Inr (img, col)"
  using assms by (auto simp: generate_run split: sum.splits)

lemma scan_split:
  assumes "x < nat (image_width cfg)" and "y < nat (image_height cfg)"
  obtains pre post where "scan cfg = pre @ (x, y) # post"
    and "(x, y) \<notin> set pre" and "(x, y) \<notin> set post"
proof -
  have "(x, y) \<in> set (scan cfg)" using assms by (simp add: set_scan)
  then obtain pre post where sp: "scan cfg = pre @ (x, y) # post"
    by (auto dest: split_list)
  have "distinct (pre @ (x, y) # post)" using distinct_scan [of cfg] sp by simp
  then have "(x, y) \<notin> set pre" "(x, y) \<notin> set post" by auto
  then show ?thesis using sp that by blast
qed

lemma generate_visit:
  assumes gen: "generate cfg = Inr img"
    and sp: "scan cfg = pre @ (x, y) # post"
  shows "\<exists>buf s1 c rgb.
           np_zeros (image_height cfg) (image_width cfg) = Inr buf
         \<and> run_pixels cfg pre (buf, None) = Inr s1
         \<and> in_bounds buf x y \<and> in_bounds (fst s1) x y \<and> green (fst s1 ! x ! y) = 0
         \<and> last_escape cfg None (pre @ [(x, y)]) = Some c
         \<and> generate_color cfg c = Inr (Color rgb)
         \<and> pixel_body cfg x (grid_re cfg x) y s1 =
             Inr ((fst s1)[x := (fst s1 ! x)[y := quantize_rgb rgb]], Some (Color rgb))
         \<and> img ! x ! y = quantize_rgb rgb"
proof -
  from gen obtain buf col where
    z: "np_zeros (image_height cfg) (image_width cfg) = Inr buf"
    and run: "run_pixels cfg (scan cfg) (buf, None) = Inr (img, col)"
    by (rule generate_Inr)
  have "distinct (pre @ (x, y) # post)" using distinct_scan [of cfg] sp by simp
  then have d: "(x, y) \<notin> set pre" "(x, y) \<notin> set post" by auto
  have run': "run_pixels cfg (pre @ (x, y) # post) (buf, None) = Inr (img, col)"
    using run sp by simp
  from render_visit [OF run' np_zeros_zero [OF z] d] z show ?thesis
    by fastforce
qed

lemma generate_square:
  assumes gen: "generate cfg = Inr img"
    and W: "0 < image_width cfg" and H: "0 < image_height cfg"
  shows "image_width cfg = image_height cfg"
proof -
  from gen obtain buf col where
    z: "np_zeros (image_height cfg) (image_width cfg) = Inr buf"
    by (rule generate_Inr)
  have xw: "nat (image_width cfg) - 1 < nat (image_width cfg)" using W by simp
  have yh: "nat (image_height cfg) - 1 < nat (image_height cfg)" using H by simp
  have x0: "0 < nat (image_width cfg)" using W by simp
  have y0: "0 < nat (image_height cfg)" using H by simp
  obtain pre post where "scan cfg = pre @ (nat (image_width cfg) - 1, 0) # post"
    by (rule scan_split [OF xw y0])
  from generate_visit [OF gen this] z
  have "in_bounds buf (nat (image_width cfg) - 1) 0" by auto
  then have le1: "nat (image_width cfg) - 1 < nat (image_height cfg)"
    by (simp add: np_zeros_bounds [OF z])
  obtain pre' post' where "scan cfg = pre' @ (0, nat (image_height cfg) - 1) # post'"
    by (rule scan_split [OF x0 yh])
  from generate_visit [OF gen this] z
  have "in_bounds buf 0 (nat (image_height cfg) - 1)" by auto
  then have le2: "nat (image_height cfg) - 1 < nat (image_width cfg)"
    by (simp add: np_zeros_bounds [OF z])
  show ?thesis using le1 le2 W H by linarith
qed

lemma generate_shape:
  assumes gen: "generate cfg = Inr img"
  shows "length img = nat (image_height cfg)"
    and "i < length img \<Longrightarrow> length (img ! i) = nat (image_width cfg)"
proof -
  from gen obtain buf col where
    z: "np_zeros (image_height cfg) (image_width cfg) = Inr buf"
    and run: "run_pixels cfg (scan cfg) (buf, None) = Inr (img, col)"
    by (rule generate_Inr)
  note sh = run_pixels_shape [OF run, of i]
  show "length img = nat (image_height cfg)"
    using sh by (simp add: np_zeros_Inr(3) [OF z])
  show "length (img ! i) = nat (image_width cfg)" if "i < length img"
    using sh that by (simp add: np_zeros_Inr(3) [OF z])
qed

lemma last_escape_snoc:
  "last_escape cfg k (ps @ [p]) =
     (case pixel_escape cfg p of None \<Rightarrow> last_escape cfg k ps | Some c \<Rightarrow> Some c)"
  by (simp add: last_escape_append)

lemma last_escape_Some_split:
  "last_escape cfg None ps = Some c \<Longrightarrow>
   \<exists>pre p mid. ps = pre @ p # mid \<and> pixel_escape cfg p = Some c
      \<and> (\<forall>q \<in> set mid. pixel_escape cfg q = None)"
proof (induction ps rule: rev_induct)
  case Nil
  then show ?case by simp
next
  case (snoc p ps)
  show ?case
  proof (cases "pixel_escape cfg p")
    case (Some c')
    then have "c' = c" using snoc.prems by (simp add: last_escape_snoc)
    then have "ps @ [p] = ps @ p # [] \<and> pixel_escape cfg p = Some c
        \<and> (\<forall>q \<in> set []. pixel_escape cfg q = None)"
      using Some by simp
    then show ?thesis by blast
  next
    case None
    then have "last_escape cfg None ps = Some c"
      using snoc.prems by (simp add: last_escape_snoc)
    from snoc.IH [OF this] obtain pre p' mid where
      "ps = pre @ p' # mid" "pixel_escape cfg p' = Some c"
      "\<forall>q \<in> set mid. pixel_escape cfg q = None"
      by blast
    then have "ps @ [p] = pre @ p' # (mid @ [p]) \<and> pixel_escape cfg p' = Some c
        \<and> (\<forall>q \<in> set (mid @ [p]). pixel_escape cfg q = None)"
      using None by simp
    then show ?thesis by blast
  qed
qed

section \<open>Sample renders\<close>

lemmas render_eval = generate_def np_zeros_def pixel_body_def grid_re_def grid_im_def
  write_pixel_def in_bounds_def green_def quantize_def py_int_def upto_rec1 upt_conv_Cons
  func_z2pc_def rad_def generate_color_def generate_color_scheme1_def
  generate_color_scheme2_def py_fmod_def eval_nat_numeral

lemma generate_cfg_demo:
  "generate cfg_demo = Inr [[(255, 4, 0), (255, 4, 0)], [(255, 4, 0), (255, 8, 0)]]"
  by (simp add: cfg_demo_def render_eval)

lemma generate_cfg_origin: "generate cfg_origin = Inl UnboundLocalError"
  by (simp add: cfg_origin_def render_eval)

lemma generate_cfg_wide: "generate cfg_wide = Inl IndexError"
  by (simp add: cfg_wide_def render_eval)

lemma generate_cfg_degenerate: "generate cfg_degenerate = Inr [[(255, 255, 255)]]"
  by (simp add: cfg_degenerate_def render_eval)

lemma generate_cfg_negative: "generate cfg_negative = Inl ValueError"
  by (simp add: cfg_negative_def generate_def np_zeros_def)

lemma generate_cfg_escape: "generate cfg_escape = Inr [[(255, 8, 0)]]"
  by (simp add: cfg_escape_def render_eval)

lemma generate_cfg_flat: "generate cfg_flat = Inr [[], []]"
  by (simp add: cfg_flat_def cfg_demo_def render_eval)

lemma np_zeros_cfg_wide:
  "np_zeros (image_height cfg_wide) (image_width cfg_wide) = Inr [[(0, 0, 0), (0, 0, 0)]]"
  by (simp add: cfg_wide_def np_zeros_def eval_nat_numeral)

lemma scan_cfg_demo: "scan cfg_demo = [(0, 0), (0, 1), (1, 0), (1, 1)]"
  by (simp add: scan_def cfg_demo_def upt_conv_Cons eval_nat_numeral)

lemmas escape_eval = pixel_escape_def pixel_sample_def spec_escape_count_def escapes_at_def
  orbit_def rad_def grid_re_def grid_im_def func_z2pc_def upto_rec1 eval_nat_numeral

lemma pixel_escape_cfg_demo:
  "pixel_escape cfg_demo (0, 0) = Some 1"
  "pixel_escape cfg_demo (0, 1) = None"
  "pixel_escape cfg_demo (1, 0) = Some 1"
  "pixel_escape cfg_demo (1, 1) = Some 2"
  by (simp_all add: cfg_demo_def escape_eval)

lemma pixel_escape_cfg_origin: "pixel_escape cfg_origin (0, 0) = None"
  by (simp add: cfg_origin_def escape_eval)

lemma main_args_palette3:
  "main args_palette3 = SysExit ''[ERROR]: Incorrect value for the palette ID!''"
  by (simp add: main_def args_palette3_def)

lemma init_cfg_degenerate:
  "init [1, 1] [2, 0, 2, 0] func_z2pc 0 1 1 2 = Inr cfg_degenerate"
  by (simp add: init_def cfg_degenerate_def)

section \<open>The returned image\<close>

lemma scan_Cons:
  assumes "0 < image_width cfg" and "0 < image_height cfg"
  shows "\<exists>rest. scan cfg = (0, 0) # rest"
proof -
  have "[0..<nat (image_width cfg)] = 0 # [Suc 0..<nat (image_width cfg)]"
    using assms(1) by (simp add: upt_conv_Cons)
  moreover have "[0..<nat (image_height cfg)] = 0 # [Suc 0..<nat (image_height cfg)]"
    using assms(2) by (simp add: upt_conv_Cons)
  ultimately show ?thesis by (simp add: scan_def)
qed

lemma first_pixel_unbound:
  assumes W: "0 < image_width cfg" and H: "0 < image_height cfg"
    and none: "pixel_escape cfg (0, 0) = None"
  shows "generate cfg = Inl UnboundLocalError"
proof -
  obtain rest where sc: "scan cfg = (0, 0) # rest" using scan_Cons [OF W H] by blast
  have z: "np_zeros (image_height cfg) (image_width cfg) =
      Inr (replicate (nat (image_height cfg)) (replicate (nat (image_width cfg)) (0, 0, 0)))"
    using W H by (simp add: np_zeros_def)
  let ?buf = "replicate (nat (image_height cfg)) (replicate (nat (image_width cfg)) (0, 0, 0)) :: image"
  have loop: "iterate_loop cfg (pixel_sample cfg 0 0) [1..iterations cfg] (pixel_sample cfg 0 0) None
      = Inr None"
    using none by (simp add: iterate_loop_spec pixel_escape_def)
  have wr: "write_pixel 0 0 None ?buf = Inl UnboundLocalError"
    using W H by (simp add: write_pixel_def in_bounds_def green_def)
  have "pixel_body cfg 0 (grid_re cfg 0) 0 (?buf, None) = Inl UnboundLocalError"
    using loop wr by (simp add: pixel_body_def pixel_sample_def)
  then have "run_pixels cfg (scan cfg) (?buf, None) = Inl UnboundLocalError"
    by (simp add: sc)
  then show ?thesis by (simp add: generate_run z)
qed

lemma escaped_pixel_value:
  assumes gen: "generate cfg = Inr img"
    and x: "x < nat (image_width cfg)" and y: "y < nat (image_height cfg)"
    and esc: "pixel_escape cfg (x, y) = Some c"
  shows "\<exists>rgb. generate_color cfg c = Inr (Color rgb) \<and> img ! x ! y = quantize_rgb rgb"
proof -
  obtain pre post where sp: "scan cfg = pre @ (x, y) # post"
    by (rule scan_split [OF x y])
  from generate_visit [OF gen sp] obtain c0 rgb where
    "last_escape cfg None (pre @ [(x, y)]) = Some c0"
    "generate_color cfg c0 = Inr (Color rgb)" "img ! x ! y = quantize_rgb rgb"
    by blast
  moreover from this(1) have "c0 = c" using esc by (simp add: last_escape_snoc)
  ultimately show ?thesis by blast
qed

lemma carried_pixel_value:
  assumes gen: "generate cfg = Inr img"
    and sp: "scan cfg = before @ (x, y) # after"
    and none: "pixel_escape cfg (x, y) = None"
  shows "\<exists>pre p mid c rgb. before = pre @ p # mid \<and> pixel_escape cfg p = Some c
      \<and> (\<forall>q \<in> set mid. pixel_escape cfg q = None)
      \<and> generate_color cfg c = Inr (Color rgb) \<and> img ! x ! y = quantize_rgb rgb"
proof -
  from generate_visit [OF gen sp] obtain c rgb where
    le: "last_escape cfg None (before @ [(x, y)]) = Some c"
    and col: "generate_color cfg c = Inr (Color rgb)"
    and px: "img ! x ! y = quantize_rgb rgb"
    by blast
  have "last_escape cfg None before = Some c"
    using le none by (simp add: last_escape_snoc)
  from last_escape_Some_split [OF this] obtain pre p mid where
    "before = pre @ p # mid" "pixel_escape cfg p = Some c"
    "\<forall>q \<in> set mid. pixel_escape cfg q = None"
    by blast
  then show ?thesis using col px by blast
qed

lemma pixel_body_spec:
  "pixel_body cfg x (grid_re cfg x) y s =
     (case (case spec_escape_count cfg (pixel_sample cfg x y) of
              None \<Rightarrow> Inr (snd s)
            | Some c \<Rightarrow>
                (case generate_color cfg c of Inl e \<Rightarrow> Inl e | Inr v \<Rightarrow> Inr (Some v))) of
        Inl e \<Rightarrow> Inl e
      | Inr color \<Rightarrow>
          (case write_pixel x y color (fst s) of
             Inl e \<Rightarrow> Inl e
           | Inr img \<Rightarrow> Inr (img, color)))"
  by (simp add: pixel_body_def pixel_sample_def Let_def iterate_loop_spec)

lemma rad_squares: "rad t z = (Re t - Re z)\<^sup>2 + (Im t - Im z)\<^sup>2"
  by (simp add: rad_def power2_eq_square)

text \<open>
  Claim C1. For every pixel the renderer starts its escape-time loop from \<open>temp = z0\<close>,
  the sample of the pixel, applies the function once per count \<open>c\<close> from 1 to N,
  measures the squared displacement \<open>(temp.re - z0.re)\<^sup>2 + (temp.im - z0.im)\<^sup>2\<close> of the
  current iterate from \<open>z0\<close>, and stops at the first count at which it is strictly above
  the threshold, binding \<open>color\<close> to the colour of that count, which is the colour the
  returned image holds for the pixel; when no count qualifies, \<open>color\<close> is left as it
  was.
\<close>

theorem escape_loop_first_escape:
  "pixel_body cfg x (grid_re cfg x) y s =
     (case (case spec_escape_count cfg (pixel_sample cfg x y) of
              None \<Rightarrow> Inr (snd s)
            | Some c \<Rightarrow>
                (case generate_color cfg c of Inl e \<Rightarrow> Inl e | Inr v \<Rightarrow> Inr (Some v))) of
        Inl e \<Rightarrow> Inl e
      | Inr color \<Rightarrow>
          (case write_pixel x y color (fst s) of
             Inl e \<Rightarrow> Inl e
           | Inr img \<Rightarrow> Inr (img, color)))
   \<and> pixel_sample cfg x y = Complex (grid_re cfg x) (grid_im cfg y)
   \<and> generate cfg =
       (case np_zeros (image_height cfg) (image_width cfg) of
          Inl e \<Rightarrow> Inl e
        | Inr buf \<Rightarrow>
            (case run_pixels cfg (scan cfg) (buf, None) of
               Inl e \<Rightarrow> Inl e
             | Inr s' \<Rightarrow> Inr (fst s')))
   \<and> (generate cfg = Inr img \<and> x < nat (image_width cfg) \<and> y < nat (image_height cfg)
        \<and> spec_escape_count cfg (pixel_sample cfg x y) = Some k \<longrightarrow>
      (\<exists>rgb. generate_color cfg k = Inr (Color rgb) \<and> img ! x ! y = quantize_rgb rgb))
   \<and> iterate_loop cfg z0 [1..iterations cfg] z0 color =
       (case spec_escape_count cfg z0 of
          None \<Rightarrow> Inr color
        | Some c \<Rightarrow> (case generate_color cfg c of Inl e \<Rightarrow> Inl e | Inr v \<Rightarrow> Inr (Some v)))
   \<and> (\<forall>c. spec_escape_count cfg z0 = Some c \<longleftrightarrow>
          1 \<le> c \<and> c \<le> iterations cfg \<and> rad (orbit cfg z0 (nat c)) z0 > zmax cfg
          \<and> (\<forall>c'. 1 \<le> c' \<and> c' < c \<longrightarrow> \<not> rad (orbit cfg z0 (nat c')) z0 > zmax cfg))
   \<and> (spec_escape_count cfg z0 = None \<longleftrightarrow>
          (\<forall>c. 1 \<le> c \<and> c \<le> iterations cfg \<longrightarrow> \<not> rad (orbit cfg z0 (nat c)) z0 > zmax cfg))
   \<and> orbit cfg z0 0 = z0
   \<and> (\<forall>n. orbit cfg z0 (Suc n) = func cfg (orbit cfg z0 n) (constant_c cfg))
   \<and> (\<forall>t. rad t z0 = (Re t - Re z0)\<^sup>2 + (Im t - Im z0)\<^sup>2)"
proof (intro conjI allI impI)
  show "pixel_body cfg x (grid_re cfg x) y s =
     (case (case spec_escape_count cfg (pixel_sample cfg x y) of
              None \<Rightarrow> Inr (snd s)
            | Some c \<Rightarrow>
                (case generate_color cfg c of Inl e \<Rightarrow> Inl e | Inr v \<Rightarrow> Inr (Some v))) of
        Inl e \<Rightarrow> Inl e
      | Inr color \<Rightarrow>
          (case write_pixel x y color (fst s) of
             Inl e \<Rightarrow> Inl e
           | Inr img \<Rightarrow> Inr (img, color)))"
    by (rule pixel_body_spec)
next
  show "pixel_sample cfg x y = Complex (grid_re cfg x) (grid_im cfg y)"
    by (simp add: pixel_sample_def)
next
  show "generate cfg =
       (case np_zeros (image_height cfg) (image_width cfg) of
          Inl e \<Rightarrow> Inl e
        | Inr buf \<Rightarrow>
            (case run_pixels cfg (scan cfg) (buf, None) of
               Inl e \<Rightarrow> Inl e
             | Inr s' \<Rightarrow> Inr (fst s')))"
    by (rule generate_run)
next
  assume a: "generate cfg = Inr img \<and> x < nat (image_width cfg) \<and> y < nat (image_height cfg)
        \<and> spec_escape_count cfg (pixel_sample cfg x y) = Some k"
  then have "pixel_escape cfg (x, y) = Some k" by (simp add: pixel_escape_def)
  then show "\<exists>rgb. generate_color cfg k = Inr (Color rgb) \<and> img ! x ! y = quantize_rgb rgb"
    using a escaped_pixel_value [of cfg img x y k] by blast
next
  show "iterate_loop cfg z0 [1..iterations cfg] z0 color =
       (case spec_escape_count cfg z0 of
          None \<Rightarrow> Inr color
        | Some c \<Rightarrow> (case generate_color cfg c of Inl e \<Rightarrow> Inl e | Inr v \<Rightarrow> Inr (Some v)))"
    by (rule iterate_loop_spec)
next
  fix c
  show "spec_escape_count cfg z0 = Some c \<longleftrightarrow>
          1 \<le> c \<and> c \<le> iterations cfg \<and> rad (orbit cfg z0 (nat c)) z0 > zmax cfg
          \<and> (\<forall>c'. 1 \<le> c' \<and> c' < c \<longrightarrow> \<not> rad (orbit cfg z0 (nat c')) z0 > zmax cfg)"
    using spec_escape_count_Some [of cfg z0 c] by (simp add: escapes_at_def)
next
  show "spec_escape_count cfg z0 = None \<longleftrightarrow>
          (\<forall>c. 1 \<le> c \<and> c \<le> iterations cfg \<longrightarrow> \<not> rad (orbit cfg z0 (nat c)) z0 > zmax cfg)"
    using spec_escape_count_None [of cfg z0] by (simp add: escapes_at_def)
next
  show "orbit cfg z0 0 = z0" by (rule orbit_0)
next
  fix n
  show "orbit cfg z0 (Suc n) = func cfg (orbit cfg z0 n) (constant_c cfg)" by (rule orbit_Suc)
next
  fix t
  show "rad t z0 = (Re t - Re z0)\<^sup>2 + (Im t - Im z0)\<^sup>2" by (rule rad_squares)
qed

lemma orbit_cfg_escape:
  "orbit cfg_escape (Complex 1 (1 / 2)) (Suc 0) = Complex (3 / 4) 1"
  "orbit cfg_escape (Complex 1 (1 / 2)) 2 = Complex (- 7 / 16) (3 / 2)"
  by (simp_all add: orbit_def numeral_2_eq_2 cfg_escape_def func_z2pc_def complex_eq_iff)

theorem escape_loop_first_escape_witness:
  "pixel_sample cfg_escape 0 0 = Complex 1 (1 / 2)
   \<and> orbit cfg_escape (Complex 1 (1 / 2)) 1 = Complex (3 / 4) 1
   \<and> orbit cfg_escape (Complex 1 (1 / 2)) 2 = Complex (- 7 / 16) (3 / 2)
   \<and> rad (Complex (3 / 4) 1) (Complex 1 (1 / 2)) = 5 / 16
   \<and> rad (Complex (- 7 / 16) (3 / 2)) (Complex 1 (1 / 2)) = 785 / 256
   \<and> (Re (Complex (- 7 / 16) (3 / 2)) - Re (Complex 1 (1 / 2)))\<^sup>2 \<le> zmax cfg_escape
   \<and> (Im (Complex (- 7 / 16) (3 / 2)) - Im (Complex 1 (1 / 2)))\<^sup>2 \<le> zmax cfg_escape
   \<and> 5 / 16 \<le> zmax cfg_escape \<and> zmax cfg_escape < 785 / 256
   \<and> (1::int) \<le> 2 \<and> 2 \<le> iterations cfg_escape
   \<and> spec_escape_count cfg_escape (Complex 1 (1 / 2)) = Some 2
   \<and> iterate_loop cfg_escape (Complex 1 (1 / 2)) [1..iterations cfg_escape] (Complex 1 (1 / 2)) None
       = Inr (Some (Color (1, 1 / 30, 0)))
   \<and> pixel_body cfg_escape 0 (grid_re cfg_escape 0) 0 ([[(0, 0, 0)]], None)
       = Inr ([[(255, 8, 0)]], Some (Color (1, 1 / 30, 0)))
   \<and> generate cfg_escape = Inr [[(255, 8, 0)]]
   \<and> (0::nat) < nat (image_width cfg_escape) \<and> (0::nat) < nat (image_height cfg_escape)
   \<and> generate_color cfg_escape 2 = Inr (Color (1, 1 / 30, 0))
   \<and> [[(255, 8, 0)]] ! 0 ! 0 = quantize_rgb (1, 1 / 30, 0)"
proof -
  let ?z = "Complex 1 (1 / 2)"
  note T = escape_loop_first_escape
    [of cfg_escape 0 0 "([[(0, 0, 0)]], None)" "[[(255, 8, 0)]]" 2 ?z None]
  have ps: "pixel_sample cfg_escape 0 0 = ?z"
    using T by (simp add: grid_re_def grid_im_def cfg_escape_def)
  have o1: "orbit cfg_escape ?z 1 = Complex (3 / 4) 1"
    using orbit_cfg_escape(1) by simp
  have o2: "orbit cfg_escape ?z 2 = Complex (- 7 / 16) (3 / 2)"
    by (rule orbit_cfg_escape(2))
  have r1: "rad (Complex (3 / 4) 1) ?z = 5 / 16"
    using T [THEN conjunct2] by (simp add: power2_eq_square)
  have r2: "rad (Complex (- 7 / 16) (3 / 2)) ?z = 785 / 256"
    using T [THEN conjunct2] by (simp add: power2_eq_square)
  have zm: "zmax cfg_escape = 3" and N: "iterations cfg_escape = 3"
    by (simp_all add: cfg_escape_def)
  have before: "\<forall>c'. 1 \<le> c' \<and> c' < 2 \<longrightarrow>
      \<not> rad (orbit cfg_escape ?z (nat c')) ?z > zmax cfg_escape"
  proof (intro allI impI)
    fix c' :: int assume "1 \<le> c' \<and> c' < 2"
    then have "c' = 1" by linarith
    then show "\<not> rad (orbit cfg_escape ?z (nat c')) ?z > zmax cfg_escape"
      using orbit_cfg_escape(1) r1 zm by simp
  qed
  have at2: "rad (orbit cfg_escape ?z (nat 2)) ?z > zmax cfg_escape"
    using o2 r2 zm by simp
  have count: "spec_escape_count cfg_escape ?z = Some 2"
    using T at2 before N by simp
  have col: "generate_color cfg_escape 2 = Inr (Color (1, 1 / 30, 0))"
    by (simp add: generate_color_def generate_color_scheme1_def py_fmod_def cfg_escape_def)
  have loop: "iterate_loop cfg_escape ?z [1..iterations cfg_escape] ?z None
       = Inr (Some (Color (1, 1 / 30, 0)))"
    using T count col by simp
  have q: "quantize_rgb (1, 1 / 30, 0) = (255, 8, 0)"
    by (simp add: quantize_rgb_def quantize_def py_int_def)
  have wr: "write_pixel 0 0 (Some (Color (1, 1 / 30, 0))) [[(0, 0, 0)]] = Inr [[(255, 8, 0)]]"
    by (simp add: write_pixel_def in_bounds_def green_def quantize_def py_int_def)
  have body: "pixel_body cfg_escape 0 (grid_re cfg_escape 0) 0 ([[(0, 0, 0)]], None)
       = Inr ([[(255, 8, 0)]], Some (Color (1, 1 / 30, 0)))"
    using T [THEN conjunct1] ps count col wr by simp
  have dims: "(0::nat) < nat (image_width cfg_escape)" "(0::nat) < nat (image_height cfg_escape)"
    by (simp_all add: cfg_escape_def)
  have "\<exists>rgb. generate_color cfg_escape 2 = Inr (Color rgb)
      \<and> [[(255, 8, 0)]] ! 0 ! 0 = quantize_rgb rgb"
    using T generate_cfg_escape dims ps count by simp
  then have px: "[[(255, 8, 0)]] ! 0 ! 0 = quantize_rgb (1, 1 / 30, 0)"
    using col by auto
  have parts: "(Re (Complex (- 7 / 16) (3 / 2)) - Re ?z)\<^sup>2 \<le> zmax cfg_escape"
    "(Im (Complex (- 7 / 16) (3 / 2)) - Im ?z)\<^sup>2 \<le> zmax cfg_escape"
    by (simp_all add: zm power2_eq_square)
  show ?thesis
    using ps o1 o2 r1 r2 parts zm N count loop body generate_cfg_escape dims col px
    by simp
qed

text \<open>
  Claim C4. The returned buffer should have the configured width as its first axis and
  the configured height as its second, with pixel \<open>(x, y)\<close> at \<open>[x][y]\<close>. The code
  allocates the buffer with the height first and then indexes it \<open>[x, y]\<close>: a valid
  configuration of width 2 and height 1 gets a buffer of one row of two pixels and fails
  at pixel \<open>(1, 0)\<close>, and a render of width 0 and height 2 returns a buffer whose first
  axis has the length of the height.
\<close>

theorem buffer_axes_transposed:
  "valid_config cfg_wide \<and> image_width cfg_wide = 2 \<and> image_height cfg_wide = 1
   \<and> np_zeros (image_height cfg_wide) (image_width cfg_wide) = Inr [[(0, 0, 0), (0, 0, 0)]]
   \<and> generate cfg_wide = Inl IndexError
   \<and> image_width cfg_flat = 0 \<and> image_height cfg_flat = 2
   \<and> generate cfg_flat = Inr [[], []]"
  by (simp add: np_zeros_cfg_wide generate_cfg_wide generate_cfg_flat)
     (simp add: valid_config_def cfg_wide_def cfg_flat_def cfg_demo_def)

text \<open>
  Claim C10. When the first pixel in scan order, \<open>(0, 0)\<close>, does not escape within N
  iterations, \<open>generate\<close> fails with the unbound-variable error instead of returning
  an image. A later pixel that does not escape is coloured, in a render that returns, with
  the colour computed for the most recently escaped pixel before it in scan order.
\<close>

theorem unbound_color_and_carry_over:
  "(0 < image_width cfg \<and> 0 < image_height cfg \<and> pixel_escape cfg (0, 0) = None \<longrightarrow>
      generate cfg = Inl UnboundLocalError)
   \<and> (generate cfg = Inr img \<and> scan cfg = before @ (x, y) # after
        \<and> pixel_escape cfg (x, y) = None \<longrightarrow>
      (\<exists>pre p mid c rgb. before = pre @ p # mid \<and> pixel_escape cfg p = Some c
          \<and> (\<forall>q \<in> set mid. pixel_escape cfg q = None)
          \<and> generate_color cfg c = Inr (Color rgb) \<and> img ! x ! y = quantize_rgb rgb))"
proof (intro conjI impI)
  assume "0 < image_width cfg \<and> 0 < image_height cfg \<and> pixel_escape cfg (0, 0) = None"
  then show "generate cfg = Inl UnboundLocalError"
    using first_pixel_unbound [of cfg] by blast
next
  assume a: "generate cfg = Inr img \<and> scan cfg = before @ (x, y) # after
        \<and> pixel_escape cfg (x, y) = None"
  show "\<exists>pre p mid c rgb. before = pre @ p # mid \<and> pixel_escape cfg p = Some c
          \<and> (\<forall>q \<in> set mid. pixel_escape cfg q = None)
          \<and> generate_color cfg c = Inr (Color rgb) \<and> img ! x ! y = quantize_rgb rgb"
    by (rule carried_pixel_value) (use a in simp_all)
qed

theorem unbound_color_and_carry_over_witness:
  "0 < image_width cfg_origin \<and> 0 < image_height cfg_origin
   \<and> pixel_escape cfg_origin (0, 0) = None
   \<and> generate cfg_origin = Inl UnboundLocalError
   \<and> generate cfg_demo = Inr [[(255, 4, 0), (255, 4, 0)], [(255, 4, 0), (255, 8, 0)]]
   \<and> scan cfg_demo = [(0, 0)] @ (0, 1) # [(1, 0), (1, 1)]
   \<and> pixel_escape cfg_demo (0, 1) = None
   \<and> pixel_escape cfg_demo (0, 0) = Some 1
   \<and> generate_color cfg_demo 1 = Inr (Color (1, 1 / 60, 0))
   \<and> [[(255, 4, 0), (255, 4, 0)], [(255, 4, 0), (255, 8, 0)]] ! 0 ! 1
       = quantize_rgb (1, 1 / 60, 0)"
proof -
  have o: "0 < image_width cfg_origin \<and> 0 < image_height cfg_origin
      \<and> pixel_escape cfg_origin (0, 0) = None"
    by (simp add: pixel_escape_cfg_origin) (simp add: cfg_origin_def)
  have first: "generate cfg_origin = Inl UnboundLocalError"
    using unbound_color_and_carry_over [of cfg_origin] o by blast
  have sc: "scan cfg_demo = [(0, 0)] @ (0, 1) # [(1, 0), (1, 1)]"
    by (simp add: scan_cfg_demo)
  have "\<exists>pre p mid c rgb. [(0, 0)] = pre @ p # mid \<and> pixel_escape cfg_demo p = Some c
          \<and> (\<forall>q \<in> set mid. pixel_escape cfg_demo q = None)
          \<and> generate_color cfg_demo c = Inr (Color rgb)
          \<and> [[(255, 4, 0), (255, 4, 0)], [(255, 4, 0), (255, 8, 0)]] ! 0 ! 1 = quantize_rgb rgb"
    using unbound_color_and_carry_over
      [of cfg_demo "[[(255, 4, 0), (255, 4, 0)], [(255, 4, 0), (255, 8, 0)]]"
          "[(0, 0)]" 0 1 "[(1, 0), (1, 1)]"]
      generate_cfg_demo sc pixel_escape_cfg_demo(2)
    by blast
  then obtain pre p mid c rgb where
    sp: "[(0, 0 :: nat)] = pre @ p # mid" and pc: "pixel_escape cfg_demo p = Some c"
    and col: "generate_color cfg_demo c = Inr (Color rgb)"
    and px: "[[(255, 4, 0), (255, 4, 0)], [(255, 4, 0), (255, 8, 0)]] ! 0 ! 1 = quantize_rgb rgb"
    by blast
  have "p = (0, 0)" using sp by (cases pre) simp_all
  then have c: "c = 1" using pc pixel_escape_cfg_demo(1) by simp
  have g1: "generate_color cfg_demo 1 = Inr (Color (1, 1 / 60, 0))"
    by (simp add: cfg_demo_def generate_color_def generate_color_scheme1_def py_fmod_def)
  then have "rgb = (1, 1 / 60, 0)" using col c by simp
  then show ?thesis
    using o first generate_cfg_demo sc pixel_escape_cfg_demo(1,2) g1 px by simp
qed

text \<open>
  Claim C6. The buffer starts all zero, and whenever a pixel is visited the green channel
  of its position still reads zero, so the guard never holds a write back. In a render
  that returns, each position is visited exactly once, the write at the visit goes
  through, and the value written then is the one the returned image holds: no position
  is overwritten and none is left unwritten. Such a render is square whenever it has a
  pixel at all.
\<close>

theorem each_position_written_once:
  "(np_zeros (image_height cfg) (image_width cfg) = Inr buf0
      \<and> scan cfg = pre0 @ (x0, y0) # post0
      \<and> run_pixels cfg pre0 (buf0, None) = Inr s0 \<and> in_bounds (fst s0) x0 y0 \<longrightarrow>
    green (fst s0 ! x0 ! y0) = 0)
   \<and> (generate cfg = Inr img \<longrightarrow>
    (\<exists>buf col.
           np_zeros (image_height cfg) (image_width cfg) = Inr buf
         \<and> (\<forall>i j. in_bounds buf i j \<longrightarrow> buf ! i ! j = (0, 0, 0))
         \<and> run_pixels cfg (scan cfg) (buf, None) = Inr (img, col)
         \<and> distinct (scan cfg)
         \<and> set (scan cfg) = {p. fst p < nat (image_width cfg) \<and> snd p < nat (image_height cfg)}
         \<and> (\<forall>pre x y post. scan cfg = pre @ (x, y) # post \<longrightarrow>
              (\<exists>s1 rgb. run_pixels cfg pre (buf, None) = Inr s1
                 \<and> in_bounds (fst s1) x y \<and> green (fst s1 ! x ! y) = 0
                 \<and> pixel_body cfg x (grid_re cfg x) y s1 =
                     Inr ((fst s1)[x := (fst s1 ! x)[y := quantize_rgb rgb]], Some (Color rgb))
                 \<and> img ! x ! y = quantize_rgb rgb))
         \<and> (0 < image_width cfg \<and> 0 < image_height cfg \<longrightarrow>
              image_width cfg = image_height cfg)))"
proof (intro conjI impI)
  assume a: "np_zeros (image_height cfg) (image_width cfg) = Inr buf0
      \<and> scan cfg = pre0 @ (x0, y0) # post0
      \<and> run_pixels cfg pre0 (buf0, None) = Inr s0 \<and> in_bounds (fst s0) x0 y0"
  then have z: "np_zeros (image_height cfg) (image_width cfg) = Inr buf0"
    and r: "run_pixels cfg pre0 (buf0, None) = Inr s0"
    and b: "in_bounds (fst s0) x0 y0"
    by simp_all
  have "distinct (pre0 @ (x0, y0) # post0)" using distinct_scan [of cfg] a by simp
  then have "(x0, y0) \<notin> set pre0" by simp
  then have "fst s0 ! x0 ! y0 = buf0 ! x0 ! y0"
    using run_pixels_other [OF r] by simp
  moreover have "in_bounds buf0 x0 y0"
    using run_pixels_bounds [OF r, of x0 y0] b by simp
  ultimately have "fst s0 ! x0 ! y0 = (0, 0, 0)"
    using np_zeros_zero [OF z] by simp
  then show "green (fst s0 ! x0 ! y0) = 0" by (simp add: green_def)
next
  assume gen: "generate cfg = Inr img"
  from gen obtain buf col where
    z: "np_zeros (image_height cfg) (image_width cfg) = Inr buf"
    and run: "run_pixels cfg (scan cfg) (buf, None) = Inr (img, col)"
    by (rule generate_Inr)
  have zero: "\<forall>i j. in_bounds buf i j \<longrightarrow> buf ! i ! j = (0, 0, 0)"
    using np_zeros_zero [OF z] by blast
  have visit: "\<exists>s1 rgb. run_pixels cfg pre (buf, None) = Inr s1
                 \<and> in_bounds (fst s1) x y \<and> green (fst s1 ! x ! y) = 0
                 \<and> pixel_body cfg x (grid_re cfg x) y s1 =
                     Inr ((fst s1)[x := (fst s1 ! x)[y := quantize_rgb rgb]], Some (Color rgb))
                 \<and> img ! x ! y = quantize_rgb rgb"
    if sp: "scan cfg = pre @ (x, y) # post" for pre x y post
  proof -
    from generate_visit [OF gen sp] obtain buf' s1 c rgb where
      "np_zeros (image_height cfg) (image_width cfg) = Inr buf'"
      "run_pixels cfg pre (buf', None) = Inr s1"
      "in_bounds (fst s1) x y" "green (fst s1 ! x ! y) = 0"
      "pixel_body cfg x (grid_re cfg x) y s1 =
         Inr ((fst s1)[x := (fst s1 ! x)[y := quantize_rgb rgb]], Some (Color rgb))"
      "img ! x ! y = quantize_rgb rgb"
      by blast
    moreover from this(1) have "buf' = buf" using z by simp
    ultimately show ?thesis by blast
  qed
  have sq: "0 < image_width cfg \<and> 0 < image_height cfg \<longrightarrow> image_width cfg = image_height cfg"
    using generate_square [OF gen] by blast
  show "\<exists>buf col.
           np_zeros (image_height cfg) (image_width cfg) = Inr buf
         \<and> (\<forall>i j. in_bounds buf i j \<longrightarrow> buf ! i ! j = (0, 0, 0))
         \<and> run_pixels cfg (scan cfg) (buf, None) = Inr (img, col)
         \<and> distinct (scan cfg)
         \<and> set (scan cfg) = {p. fst p < nat (image_width cfg) \<and> snd p < nat (image_height cfg)}
         \<and> (\<forall>pre x y post. scan cfg = pre @ (x, y) # post \<longrightarrow>
              (\<exists>s1 rgb. run_pixels cfg pre (buf, None) = Inr s1
                 \<and> in_bounds (fst s1) x y \<and> green (fst s1 ! x ! y) = 0
                 \<and> pixel_body cfg x (grid_re cfg x) y s1 =
                     Inr ((fst s1)[x := (fst s1 ! x)[y := quantize_rgb rgb]], Some (Color rgb))
                 \<and> img ! x ! y = quantize_rgb rgb))
         \<and> (0 < image_width cfg \<and> 0 < image_height cfg \<longrightarrow>
              image_width cfg = image_height cfg)"
    using z zero run distinct_scan [of cfg] set_scan [of cfg] visit sq by blast
qed

theorem each_position_written_once_witness:
  "generate cfg_demo = Inr [[(255, 4, 0), (255, 4, 0)], [(255, 4, 0), (255, 8, 0)]]
   \<and> scan cfg_demo = [(0, 0)] @ (0, 1) # [(1, 0), (1, 1)]
   \<and> distinct (scan cfg_demo)
   \<and> (\<exists>buf s1 rgb. np_zeros (image_height cfg_demo) (image_width cfg_demo) = Inr buf
         \<and> run_pixels cfg_demo [(0, 0)] (buf, None) = Inr s1
         \<and> in_bounds (fst s1) 0 1 \<and> green (fst s1 ! 0 ! 1) = 0
         \<and> pixel_body cfg_demo 0 (grid_re cfg_demo 0) 1 s1 =
             Inr ((fst s1)[0 := (fst s1 ! 0)[1 := quantize_rgb rgb]], Some (Color rgb))
         \<and> [[(255, 4, 0), (255, 4, 0)], [(255, 4, 0), (255, 8, 0)]] ! 0 ! 1 = quantize_rgb rgb)"
proof -
  have sc: "scan cfg_demo = [(0, 0)] @ (0, 1) # [(1, 0), (1, 1)]"
    by (simp add: scan_cfg_demo)
  note once = each_position_written_once
    [of cfg_demo _ _ _ _ _ _ "[[(255, 4, 0), (255, 4, 0)], [(255, 4, 0), (255, 8, 0)]]"]
  from once [THEN conjunct2] generate_cfg_demo obtain buf where
    z: "np_zeros (image_height cfg_demo) (image_width cfg_demo) = Inr buf"
    and d: "distinct (scan cfg_demo)"
    and v: "\<forall>pre x y post. scan cfg_demo = pre @ (x, y) # post \<longrightarrow>
              (\<exists>s1 rgb. run_pixels cfg_demo pre (buf, None) = Inr s1
                 \<and> in_bounds (fst s1) x y \<and> green (fst s1 ! x ! y) = 0
                 \<and> pixel_body cfg_demo x (grid_re cfg_demo x) y s1 =
                     Inr ((fst s1)[x := (fst s1 ! x)[y := quantize_rgb rgb]], Some (Color rgb))
                 \<and> [[(255, 4, 0), (255, 4, 0)], [(255, 4, 0), (255, 8, 0)]] ! x ! y
                     = quantize_rgb rgb)"
    by blast
  from v sc obtain s1 rgb where
    r: "run_pixels cfg_demo [(0, 0)] (buf, None) = Inr s1"
    and b: "in_bounds (fst s1) 0 1"
    and w: "pixel_body cfg_demo 0 (grid_re cfg_demo 0) 1 s1 =
              Inr ((fst s1)[0 := (fst s1 ! 0)[1 := quantize_rgb rgb]], Some (Color rgb))"
    and px: "[[(255, 4, 0), (255, 4, 0)], [(255, 4, 0), (255, 8, 0)]] ! 0 ! 1 = quantize_rgb rgb"
    by blast
  have "green (fst s1 ! 0 ! 1) = 0"
    using once [THEN conjunct1, of buf "[(0, 0)]" 0 1 "[(1, 0), (1, 1)]" s1] z sc r b by blast
  then show ?thesis using generate_cfg_demo sc d z r b w px by blast
qed

text \<open>
  Claim C3. Every valid configuration should render without a runtime error. The code
  does not: a valid 1 by 1 configuration whose only pixel never escapes reads the unbound
  variable \<open>color\<close>, and a valid configuration wider than high indexes outside the
  buffer.
\<close>

theorem valid_config_render_fails:
  "valid_config cfg_origin \<and> generate cfg_origin = Inl UnboundLocalError
   \<and> valid_config cfg_wide \<and> generate cfg_wide = Inl IndexError"
  by (simp add: generate_cfg_origin generate_cfg_wide)
     (simp add: valid_config_def cfg_origin_def cfg_wide_def)

section \<open>Configuration errors\<close>

lemma generate_color_Inl: "generate_color cfg c = Inl e \<Longrightarrow> e = ZeroDivisionError"
  by (auto simp: generate_color_def generate_color_scheme2_def Let_def split: if_splits sum.splits)

lemma iterate_loop_Inl:
  "iterate_loop cfg z cs temp1 color = Inl e \<Longrightarrow> e = ZeroDivisionError"
proof (induction cs arbitrary: temp1)
  case Nil
  then show ?case by simp
next
  case (Cons c cs)
  show ?case
  proof (cases "rad (func cfg temp1 (constant_c cfg)) z > zmax cfg")
    case True
    then have "generate_color cfg c = Inl e"
      using Cons.prems by (auto simp: Let_def split: sum.splits)
    then show ?thesis by (rule generate_color_Inl)
  next
    case False
    then have "iterate_loop cfg z cs (func cfg temp1 (constant_c cfg)) color = Inl e"
      using Cons.prems by (simp add: Let_def)
    then show ?thesis by (rule Cons.IH)
  qed
qed

lemma write_pixel_Inl: "write_pixel x y color img = Inl e \<Longrightarrow> e \<noteq> ValueError"
  by (auto simp: write_pixel_def split: if_splits option.splits pyval.splits prod.splits)

lemma pixel_body_Inl: "pixel_body cfg x z_r y s = Inl e \<Longrightarrow> e \<noteq> ValueError"
  by (auto simp: pixel_body_def Let_def split: sum.splits
      dest: iterate_loop_Inl write_pixel_Inl)

lemma run_pixels_Inl: "run_pixels cfg ps s = Inl e \<Longrightarrow> e \<noteq> ValueError"
proof (induction ps arbitrary: s)
  case Nil
  then show ?case by simp
next
  case (Cons p ps)
  show ?case
  proof (cases "pixel_body cfg (fst p) (grid_re cfg (fst p)) (snd p) s")
    case (Inl e')
    then have "e' = e" using Cons.prems by simp
    then show ?thesis using pixel_body_Inl [OF Inl] by simp
  next
    case (Inr s1)
    then have "run_pixels cfg ps s1 = Inl e" using Cons.prems by simp
    then show ?thesis by (rule Cons.IH)
  qed
qed

lemma generate_ValueError:
  "generate cfg = Inl ValueError \<longleftrightarrow> image_width cfg < 0 \<or> image_height cfg < 0"
proof
  assume g: "generate cfg = Inl ValueError"
  show "image_width cfg < 0 \<or> image_height cfg < 0"
  proof (rule ccontr)
    assume "\<not> (image_width cfg < 0 \<or> image_height cfg < 0)"
    then obtain buf where z: "np_zeros (image_height cfg) (image_width cfg) = Inr buf"
      by (auto simp: np_zeros_def)
    then have "run_pixels cfg (scan cfg) (buf, None) = Inl ValueError"
      using g by (auto simp: generate_run split: sum.splits)
    then show False using run_pixels_Inl by blast
  qed
next
  assume "image_width cfg < 0 \<or> image_height cfg < 0"
  then show "generate cfg = Inl ValueError"
    by (auto simp: generate_def np_zeros_def)
qed

text \<open>
  Claim C2, the counterexample. A configuration with a degenerate grid (\<open>minx = maxx\<close>,
  \<open>miny = maxy\<close>) is accepted by the constructor and rendered to an image.
\<close>

theorem degenerate_grid_renders:
  "maxx cfg_degenerate \<le> minx cfg_degenerate \<and> maxy cfg_degenerate \<le> miny cfg_degenerate
   \<and> init [1, 1] [2, 0, 2, 0] func_z2pc 0 1 1 2 = Inr cfg_degenerate
   \<and> generate cfg_degenerate = Inr [[(255, 255, 255)]]"
  by (simp add: init_cfg_degenerate generate_cfg_degenerate) (simp add: cfg_degenerate_def)

text \<open>
  Claim C2, as amended. An unknown function or palette selector is caught by the
  command-line entry point, which exits before a renderer is constructed. The rendering
  core validates nothing: the constructor stores what it is given, and \<open>generate\<close>
  reports a configuration error before any pixel is computed exactly when the width or
  the height is negative, where the allocation of the buffer fails and no image is
  produced.
\<close>

theorem configuration_checks:
  "((arg_function a \<noteq> 1 \<and> arg_function a \<noteq> 2) \<or> (arg_palette a \<noteq> 1 \<and> arg_palette a \<noteq> 2) \<longrightarrow>
      (\<exists>msg. main a = SysExit msg))
   \<and> (init [w, h] [x0, y0, x1, y1] f c n t s =
        Inr \<lparr> image_width = w, image_height = h, minx = x0, miny = y0, maxx = x1, maxy = y1,
              iterations = n, constant_c = c, func = f, zmax = t, scheme = s \<rparr>)
   \<and> (generate cfg = Inl ValueError \<longleftrightarrow> image_width cfg < 0 \<or> image_height cfg < 0)
   \<and> (image_width cfg < 0 \<or> image_height cfg < 0 \<longrightarrow>
        np_zeros (image_height cfg) (image_width cfg) = Inl ValueError)"
proof (intro conjI impI)
  assume "(arg_function a \<noteq> 1 \<and> arg_function a \<noteq> 2) \<or> (arg_palette a \<noteq> 1 \<and> arg_palette a \<noteq> 2)"
  then show "\<exists>msg. main a = SysExit msg"
    by (auto simp: main_def)
next
  show "init [w, h] [x0, y0, x1, y1] f c n t s =
        Inr \<lparr> image_width = w, image_height = h, minx = x0, miny = y0, maxx = x1, maxy = y1,
              iterations = n, constant_c = c, func = f, zmax = t, scheme = s \<rparr>"
    by (simp add: init_def)
next
  show "generate cfg = Inl ValueError \<longleftrightarrow> image_width cfg < 0 \<or> image_height cfg < 0"
    by (rule generate_ValueError)
next
  assume "image_width cfg < 0 \<or> image_height cfg < 0"
  then show "np_zeros (image_height cfg) (image_width cfg) = Inl ValueError"
    by (auto simp: np_zeros_def)
qed

theorem configuration_checks_witness:
  "arg_palette args_palette3 \<noteq> 1 \<and> arg_palette args_palette3 \<noteq> 2
   \<and> (\<exists>msg. main args_palette3 = SysExit msg)
   \<and> image_width cfg_negative < 0
   \<and> generate cfg_negative = Inl ValueError
   \<and> np_zeros (image_height cfg_negative) (image_width cfg_negative) = Inl ValueError"
proof -
  note T = configuration_checks [of args_palette3 _ _ _ _ _ _ _ _ _ _ _ cfg_negative]
  have p: "arg_palette args_palette3 \<noteq> 1 \<and> arg_palette args_palette3 \<noteq> 2"
    by (simp add: args_palette3_def)
  have w: "image_width cfg_negative < 0"
    by (simp add: cfg_negative_def)
  have "\<exists>msg. main args_palette3 = SysExit msg" using T p by blast
  moreover have "generate cfg_negative = Inl ValueError" using T w by blast
  moreover have "np_zeros (image_height cfg_negative) (image_width cfg_negative) = Inl ValueError"
    using T w by blast
  ultimately show ?thesis using p w by blast
qed

end
